theory Spec2Isabelle
  imports Complex_Main
begin

section \<open>Data model of the adaptive streaming engine\<close>

text \<open>
  The engine is the class \<open>AdaptiveStreamingEngine\<close> of \<open>utils/adaptiveStreaming.ts\<close>.
  A JavaScript number is modelled as a real: \<open>NaN\<close>, the infinities and rounding are
  outside the model. A field that holds an object or \<open>null\<close> is an \<open>option\<close>, or a
  \<open>bool\<close> (\<open>True\<close>: non-null) where nothing of the object is kept by the engine.
  A field whose name is also the name of a field of another interface carries the suffix
  \<open>_lvl\<close> (of a quality level) or \<open>_log\<close>.
\<close>

record QualityLevel =
  id_lvl :: string
  bitrate :: real
  width :: real
  height :: real
  codec :: string
  mimeType :: string
  url :: string
  bandwidth_lvl :: real

record AdaptiveStreamingConfig =
  qualities :: "QualityLevel list"
  networkCheckInterval :: real
  targetBufferLength :: real
  maxBufferLength :: real
  minBufferLength :: real
  lowLatencyMode :: bool
  segmentDuration :: real
  rebufferThreshold :: real
  qualitySwitchThreshold :: real

datatype connectionType = Slow2g | Net2g | Net3g | Net4g | Net5g | Wifi | Ethernet

record NetworkMetrics =
  bandwidth :: real
  latency :: real
  packetLoss :: real
  jitter :: real
  throughput :: real
  connectionType :: connectionType

datatype userExperience = Excellent | Good | Fair | Poor

record AdaptiveMetrics =
  currentQuality :: string
  qualitySwitches :: nat
  rebufferingEvents :: nat
  averageLatency :: real
  bufferHealth :: real
  networkStability :: real
  userExperience :: userExperience

text \<open>A media segment is an \<open>ArrayBuffer\<close>: its bytes.\<close>

type_synonym segment = "nat list"

text \<open>
  Of a \<open>SourceBuffer\<close> the model keeps the type it was created with
  (\<open>mimeType; codecs="codec"\<close>), its \<open>mode\<close> and the segments handed to
  \<open>appendBuffer\<close>, in order. What the browser changes on its own (\<open>updating\<close>,
  \<open>buffered\<close>, the position of the video element, the clock) is read at each callback
  from a \<open>dom\<close> record.

  The record also carries \<open>jsTimes\<close>, the product of two numbers as JavaScript computes
  it: the exact product rounded to a double. It is a parameter of the model, so that what is
  proved of the target bitrate of \<open>adaptQuality\<close> holds for the number the code
  computes, whatever the rounding.
\<close>

record SourceBuffer =
  sb_mimeType :: string
  sb_codec :: string
  sb_sequence_mode :: bool
  sb_appended :: "segment list"

record dom =
  currentTime :: real
  buffered :: "(real \<times> real) list"
  updating :: bool
  now :: real
  addSourceBuffer_throws :: bool
  appendBuffer_throws :: bool
  jsTimes :: "real \<Rightarrow> real \<Rightarrow> real"

record engine =
  mediaSource :: bool
  sourceBuffer :: "SourceBuffer option"
  videoElement :: bool
  config :: AdaptiveStreamingConfig
  currentQuality_lvl :: "QualityLevel option"
  networkMetrics :: NetworkMetrics
  adaptiveMetrics :: AdaptiveMetrics
  qualityHistory :: "string list"
  rebufferingEvents_log :: "real list"
  networkMonitorInterval :: bool
  bufferMonitorInterval :: bool
  isPlaying :: bool
  isBuffering :: bool
  lastSegmentTime :: real
  segmentQueue :: "segment list"
  qualitySwitchCooldown :: real

datatype error =
  MediaSourceNotInitialized
  | NoSuitableQualityLevelFound
  | MediaSourceError
  | AddSourceBufferFailed
  | FetchRejected

text \<open>
  The errors the engine makes itself are all made by \<open>new Error(message)\<close>: one
  class, told apart by the message only. \<open>thrown\<close> gives the class and the message of
  these; the two others are whatever the browser raises from \<open>addSourceBuffer\<close> and
  rejects \<open>fetch\<close> with.
\<close>

fun thrown :: "error \<Rightarrow> (string \<times> string) option" where
  "thrown MediaSourceNotInitialized = Some (''Error'', ''MediaSource not initialized'')"
| "thrown NoSuitableQualityLevelFound = Some (''Error'', ''No suitable quality level found'')"
| "thrown MediaSourceError = Some (''Error'', ''MediaSource error: [object Event]'')"
| "thrown AddSourceBufferFailed = None"
| "thrown FetchRejected = None"

section \<open>Construction\<close>

definition initializeNetworkMetrics :: NetworkMetrics where
  "initializeNetworkMetrics =
     \<lparr>bandwidth = 0, latency = 0, packetLoss = 0, jitter = 0, throughput = 0,
      connectionType = Wifi\<rparr>"

definition initializeAdaptiveMetrics :: AdaptiveMetrics where
  "initializeAdaptiveMetrics =
     \<lparr>currentQuality = [], qualitySwitches = 0, rebufferingEvents = 0, averageLatency = 0,
      bufferHealth = 100, networkStability = 100, userExperience = Good\<rparr>"

definition constructor :: "AdaptiveStreamingConfig \<Rightarrow> engine" where
  "constructor cfg =
     \<lparr>mediaSource = False, sourceBuffer = None, videoElement = False, config = cfg,
      currentQuality_lvl = None, networkMetrics = initializeNetworkMetrics,
      adaptiveMetrics = initializeAdaptiveMetrics, qualityHistory = [],
      rebufferingEvents_log = [], networkMonitorInterval = False,
      bufferMonitorInterval = False, isPlaying = False, isBuffering = False,
      lastSegmentTime = 0, segmentQueue = [], qualitySwitchCooldown = 0\<rparr>"

section \<open>Quality selection\<close>

text \<open>
  \<open>selectQualityForBitrate\<close>: \<open>selectedQuality\<close> starts as \<open>qualities[0]\<close>
  (\<open>undefined\<close> on an empty ladder, here \<open>None\<close>); the loop walks the ladder, takes each
  level whose bitrate is within the target and stops at the first one that is not.
  \<open>scanLadder\<close> is the loop, with \<open>selectedQuality\<close> as its accumulator.
\<close>

fun scanLadder :: "real \<Rightarrow> QualityLevel \<Rightarrow> QualityLevel list \<Rightarrow> QualityLevel" where
  "scanLadder targetBitrate selectedQuality [] = selectedQuality"
| "scanLadder targetBitrate selectedQuality (quality # rest) =
     (if bitrate quality \<le> targetBitrate then scanLadder targetBitrate quality rest
      else selectedQuality)"

definition selectQualityForBitrate :: "QualityLevel list \<Rightarrow> real \<Rightarrow> QualityLevel option" where
  "selectQualityForBitrate ladder targetBitrate =
     (case ladder of
        [] \<Rightarrow> None
      | first # _ \<Rightarrow> Some (scanLadder targetBitrate first ladder))"

text \<open>
  The target of \<open>adaptQuality\<close>: \<open>availableBandwidth * 0.8\<close>, the product JavaScript
  computes of 0.8 and the smaller of the measured bandwidth and throughput.
\<close>

definition targetBitrate_of :: "dom \<Rightarrow> NetworkMetrics \<Rightarrow> real" where
  "targetBitrate_of d nm = jsTimes d (min (bandwidth nm) (throughput nm)) 0.8"

section \<open>Switching quality\<close>

text \<open>
  \<open>switchQuality\<close> is an \<open>async\<close> function. It returns at once when the media source
  or the source buffer is missing. Inside its \<open>try\<close> it adds a source buffer for the new
  level; when the old buffer holds data and the position lies in its first range it awaits
  \<open>extractBufferSegment\<close> (which always yields \<open>null\<close>, so nothing is copied); then it
  swaps the buffers and updates the metrics, the history and the cooldown. An exception of
  the browser call is caught and logged: the switch does not happen.

  \<open>switchQuality_commit\<close> is the update after the \<open>try\<close>'s browser calls.
  \<open>switchQuality_awaits\<close> says whether the body passes through its \<open>await\<close>: then the
  update runs as a microtask, after the synchronous code that called \<open>switchQuality\<close>
  has finished and before any other timer or event callback. \<open>switchQuality\<close> is the
  state once the returned promise has settled.
\<close>

definition switchQuality_commit :: "engine \<Rightarrow> QualityLevel \<Rightarrow> engine" where
  "switchQuality_commit s newQuality =
     s\<lparr>sourceBuffer :=
          Some \<lparr>sb_mimeType = mimeType newQuality, sb_codec = codec newQuality,
                sb_sequence_mode = True, sb_appended = []\<rparr>,
       currentQuality_lvl := Some newQuality,
       adaptiveMetrics := (adaptiveMetrics s)
          \<lparr>currentQuality := id_lvl newQuality,
           qualitySwitches := qualitySwitches (adaptiveMetrics s) + 1\<rparr>,
       qualityHistory := qualityHistory s @ [id_lvl newQuality],
       qualitySwitchCooldown := 2000\<rparr>"

definition switchQuality_awaits :: "engine \<Rightarrow> dom \<Rightarrow> bool" where
  "switchQuality_awaits s d =
     (case buffered d of
        [] \<Rightarrow> False
      | (bufferStart, bufferEnd) # _ \<Rightarrow>
          (let time = (if videoElement s then currentTime d else 0)
           in bufferStart \<le> time \<and> time \<le> bufferEnd))"

definition switchQuality :: "engine \<Rightarrow> dom \<Rightarrow> QualityLevel \<Rightarrow> engine" where
  "switchQuality s d newQuality =
     (if \<not> mediaSource s \<or> sourceBuffer s = None then s
      else if addSourceBuffer_throws d then s
      else switchQuality_commit s newQuality)"

section \<open>The network tick\<close>

text \<open>
  \<open>adaptQuality\<close>: nothing happens without a current quality or while the cooldown is
  positive; otherwise the level selected for the target bitrate is switched to when its id
  differs from the current one.
\<close>

definition adaptQuality :: "engine \<Rightarrow> dom \<Rightarrow> engine" where
  "adaptQuality s d =
     (case currentQuality_lvl s of
        None \<Rightarrow> s
      | Some current \<Rightarrow>
          if qualitySwitchCooldown s > 0 then s
          else
            (case selectQualityForBitrate (qualities (config s))
                    (targetBitrate_of d (networkMetrics s)) of
               None \<Rightarrow> s
             | Some newQuality \<Rightarrow>
                 if id_lvl newQuality \<noteq> id_lvl current then switchQuality s d newQuality
                 else s))"

text \<open>
  \<open>navigator.connection\<close>, when the browser has it: its \<open>effectiveType\<close> (possibly
  undefined) and its \<open>downlink\<close> in megabits per second.
\<close>

record connection =
  effectiveType :: "connectionType option"
  downlink :: real

text \<open>
  \<open>updateNetworkMetrics_begin\<close> is the part of \<open>updateNetworkMetrics\<close> that runs before
  the probe's \<open>fetch\<close> is awaited.
\<close>

definition updateNetworkMetrics_begin :: "engine \<Rightarrow> connection option \<Rightarrow> engine" where
  "updateNetworkMetrics_begin s conn =
     (case conn of
        None \<Rightarrow> s
      | Some c \<Rightarrow>
          s\<lparr>networkMetrics := (networkMetrics s)
              \<lparr>connectionType := (case effectiveType c of None \<Rightarrow> Wifi | Some t \<Rightarrow> t),
               bandwidth := downlink c * 1000000\<rparr>\<rparr>)"

text \<open>
  The probe \<open>fetch('/api/network-test', HEAD)\<close> either rejects or resolves with a
  response: its \<open>ok\<close> flag, its \<open>content-length\<close> header as a number when present and
  non-empty, and the time the request took in milliseconds.
\<close>

datatype probe = ProbeRejected | ProbeResponse bool "real option" real

text \<open>
  \<open>measureThroughput_try\<close> is the body of the \<open>try\<close> block, where a rejected
  \<open>fetch\<close> throws; \<open>measureThroughput\<close> adds the \<open>catch\<close>.
\<close>

definition measureThroughput_try :: "engine \<Rightarrow> probe \<Rightarrow> error + engine" where
  "measureThroughput_try s p =
     (case p of
        ProbeRejected \<Rightarrow> Inl FetchRejected
      | ProbeResponse ok contentLength duration \<Rightarrow>
          if ok \<and> duration > 0 then
            (let estimatedBandwidth = (case contentLength of None \<Rightarrow> 1000 | Some n \<Rightarrow> n)
             in Inr (s\<lparr>networkMetrics := (networkMetrics s)
                      \<lparr>throughput := (estimatedBandwidth * 8) / (duration / 1000)\<rparr>\<rparr>))
          else Inr s)"

definition measureThroughput :: "engine \<Rightarrow> probe \<Rightarrow> error + engine" where
  "measureThroughput s p =
     (case measureThroughput_try s p of
        Inl e \<Rightarrow> Inr (s\<lparr>networkMetrics := (networkMetrics s)\<lparr>throughput := 1000000\<rparr>\<rparr>)
      | Inr s' \<Rightarrow> Inr s')"

text \<open>
  \<open>calculateNetworkStability\<close>: over the last ten ids of the quality history, the
  variance of their bitrates over their mean. An id no level has counts as bitrate 0.
  (A mean of 0 gives \<open>NaN\<close> in JavaScript; no result below depends on the stability
  value.)
\<close>

definition bitrateOfId :: "QualityLevel list \<Rightarrow> string \<Rightarrow> real" where
  "bitrateOfId ladder q =
     (case find (\<lambda>ql. id_lvl ql = q) ladder of None \<Rightarrow> 0 | Some quality \<Rightarrow> bitrate quality)"

definition calculateNetworkStability :: "engine \<Rightarrow> engine" where
  "calculateNetworkStability s =
     (let recentBandwidths = drop (length (qualityHistory s) - 10) (qualityHistory s)
      in if length recentBandwidths < 2
         then s\<lparr>adaptiveMetrics := (adaptiveMetrics s)\<lparr>networkStability := 100\<rparr>\<rparr>
         else
           (let ladder = qualities (config s);
                avgBandwidth =
                  foldl (\<lambda>sum q. sum + bitrateOfId ladder q) 0 recentBandwidths
                    / real (length recentBandwidths);
                variance =
                  foldl (\<lambda>sum q. sum + (bitrateOfId ladder q - avgBandwidth)
                                        * (bitrateOfId ladder q - avgBandwidth))
                    0 recentBandwidths
                    / real (length recentBandwidths)
            in s\<lparr>adaptiveMetrics := (adaptiveMetrics s)
                  \<lparr>networkStability := max 0 (100 - (variance / avgBandwidth) * 100)\<rparr>\<rparr>))"

text \<open>
  \<open>updateNetworkMetrics\<close> as its caller sees it once the promise has settled: the whole
  body is inside a \<open>try\<close> whose \<open>catch\<close> only logs.
\<close>

definition updateNetworkMetrics_try :: "engine \<Rightarrow> connection option \<Rightarrow> probe \<Rightarrow> error + engine" where
  "updateNetworkMetrics_try s conn p =
     (case measureThroughput (updateNetworkMetrics_begin s conn) p of
        Inl e \<Rightarrow> Inl e
      | Inr s' \<Rightarrow> Inr (calculateNetworkStability s'))"

definition updateNetworkMetrics :: "engine \<Rightarrow> connection option \<Rightarrow> probe \<Rightarrow> error + engine" where
  "updateNetworkMetrics s conn p =
     (case updateNetworkMetrics_try s conn p of
        Inl e \<Rightarrow> Inr (updateNetworkMetrics_begin s conn)
      | Inr s' \<Rightarrow> Inr s')"

section \<open>The buffer tick\<close>

text \<open>
  \<open>Array.prototype.findIndex\<close>: the index of the first element that satisfies the
  predicate, \<open>-1\<close> when there is none.
\<close>

fun findIndex :: "('a \<Rightarrow> bool) \<Rightarrow> 'a list \<Rightarrow> int" where
  "findIndex P [] = -1"
| "findIndex P (x # xs) =
     (if P x then 0 else (let r = findIndex P xs in if r < 0 then -1 else r + 1))"

text \<open>
  A segment request \<open>fetch(`${url}?segment=${i}`)\<close>: the url of the level and the
  segment number.
\<close>

record request =
  req_url :: string
  req_segment :: nat

text \<open>
  \<open>preloadContent\<close> calls \<open>fetchNextSegments(3)\<close>, whose loop builds the url of
  segment 0 from \<open>this.currentQuality\<close> and issues the \<open>fetch\<close> before its first
  \<open>await\<close>. \<open>preloadContent_begin\<close> is that synchronous part: the request issued
  during the call, from the current quality as the call finds it.
\<close>

definition preloadContent_begin :: "engine \<Rightarrow> request list" where
  "preloadContent_begin s =
     (case currentQuality_lvl s of
        None \<Rightarrow> []
      | Some q \<Rightarrow> [\<lparr>req_url = url q, req_segment = 0\<rparr>])"

text \<open>
  When the fetched segments arrive, \<open>preloadContent\<close> appends each one if the source
  buffer exists and is not updating. \<open>appendBuffer\<close> sets \<open>updating\<close> until the
  browser fires \<open>updateend\<close>, so within the loop only the first segment is appended;
  an exception is caught and logged.
\<close>

definition appendTo :: "engine \<Rightarrow> segment \<Rightarrow> engine" where
  "appendTo s seg =
     (case sourceBuffer s of
        None \<Rightarrow> s
      | Some sb \<Rightarrow> s\<lparr>sourceBuffer := Some (sb\<lparr>sb_appended := sb_appended sb @ [seg]\<rparr>)\<rparr>)"

definition preloadContent_resume :: "engine \<Rightarrow> dom \<Rightarrow> segment list \<Rightarrow> engine" where
  "preloadContent_resume s d nextSegments =
     (case nextSegments of
        [] \<Rightarrow> s
      | seg # _ \<Rightarrow>
          if sourceBuffer s \<noteq> None \<and> \<not> updating d \<and> \<not> appendBuffer_throws d
          then appendTo s seg else s)"

text \<open>
  \<open>handleRebufferingRisk\<close> returns the engine as the tick leaves it (with the microtask
  of an awaited switch run) and the requests issued during the call.
  \<open>this.switchQuality(lowerQuality)\<close> is not awaited: when its body passes through its
  \<open>await\<close>, \<open>preloadContent()\<close> is called while the switch has not yet been
  committed.
\<close>

definition handleRebufferingRisk :: "engine \<Rightarrow> dom \<Rightarrow> engine \<times> request list" where
  "handleRebufferingRisk s d =
     (if isBuffering s then (s, [])
      else
        (let currentIndex =
               findIndex (\<lambda>q. Some (id_lvl q) = map_option id_lvl (currentQuality_lvl s))
                 (qualities (config s))
         in if currentIndex > 0 then
              (let lowerQuality = qualities (config s) ! nat (currentIndex - 1);
                   atPreload = (if switchQuality_awaits s d then s
                                else switchQuality s d lowerQuality)
               in (switchQuality s d lowerQuality, preloadContent_begin atPreload))
            else (s, preloadContent_begin s)))"

text \<open>
  \<open>monitorBufferHealth\<close> divides the buffer ahead by \<open>config.targetBufferLength\<close>.
  With a target of 0 the quotient is an infinity or \<open>NaN\<close> in JavaScript, which the
  number model does not have: what is stated below of the stored health is stated for a
  target other than 0.
\<close>

definition bufferAhead :: "dom \<Rightarrow> real" where
  "bufferAhead d = snd (last (buffered d)) - currentTime d"

definition monitorBufferHealth :: "engine \<Rightarrow> dom \<Rightarrow> engine \<times> request list" where
  "monitorBufferHealth s d =
     (if \<not> videoElement s \<or> sourceBuffer s = None then (s, [])
      else if buffered d = []
      then (s\<lparr>adaptiveMetrics := (adaptiveMetrics s)\<lparr>bufferHealth := 0\<rparr>\<rparr>, [])
      else
        (let health = min 100 ((bufferAhead d / targetBufferLength (config s)) * 100);
             s1 = s\<lparr>adaptiveMetrics := (adaptiveMetrics s)\<lparr>bufferHealth := health\<rparr>\<rparr>
         in if bufferAhead d < rebufferThreshold (config s)
            then handleRebufferingRisk s1 d
            else (s1, [])))"

section \<open>Source buffer events and segment loading\<close>

definition handleBufferUpdate :: "engine \<Rightarrow> real \<Rightarrow> engine" where
  "handleBufferUpdate s time =
     (if isBuffering s
      then s\<lparr>isBuffering := False,
             adaptiveMetrics := (adaptiveMetrics s)
               \<lparr>rebufferingEvents := rebufferingEvents (adaptiveMetrics s) + 1\<rparr>,
             rebufferingEvents_log := rebufferingEvents_log s @ [time]\<rparr>
      else s)"

definition handleBufferError :: "engine \<Rightarrow> dom \<Rightarrow> engine" where
  "handleBufferError s d =
     (let s1 = s\<lparr>isBuffering := True\<rparr>
      in case currentQuality_lvl s1 of
           None \<Rightarrow> s1
         | Some current \<Rightarrow>
             (case find (\<lambda>q. bitrate q < bitrate current) (qualities (config s1)) of
                None \<Rightarrow> s1
              | Some stableQuality \<Rightarrow> switchQuality s1 d stableQuality))"

text \<open>
  \<open>loadSegment\<close>. The test of the source buffer is made when the call starts; the rest
  runs when the \<open>fetch\<close> has settled. In the busy branch nothing catches a rejected
  \<open>fetch\<close>: the promise of \<open>loadSegment\<close> rejects. In the other branch the \<open>try\<close>
  catches a rejected \<open>fetch\<close> and an exception of \<open>appendBuffer\<close>, logs it and
  calls \<open>handleBufferError\<close>; the promise resolves.
\<close>

datatype 'a fetched = Rejected | Resolved 'a

datatype loadPath = QueuePath | AppendPath

definition loadSegment_path :: "engine \<Rightarrow> dom \<Rightarrow> loadPath" where
  "loadSegment_path s d = (if sourceBuffer s = None \<or> updating d then QueuePath else AppendPath)"

definition loadSegment_resume :: "loadPath \<Rightarrow> engine \<Rightarrow> segment fetched \<Rightarrow> dom \<Rightarrow> error + engine" where
  "loadSegment_resume path s response d =
     (case path of
        QueuePath \<Rightarrow>
          (case response of
             Rejected \<Rightarrow> Inl FetchRejected
           | Resolved seg \<Rightarrow> Inr (s\<lparr>segmentQueue := segmentQueue s @ [seg]\<rparr>))
      | AppendPath \<Rightarrow>
          (case response of
             Rejected \<Rightarrow> Inr (handleBufferError s d)
           | Resolved seg \<Rightarrow>
               if sourceBuffer s = None \<or> appendBuffer_throws d
               then Inr (handleBufferError s d)
               else Inr ((appendTo s seg)\<lparr>lastSegmentTime := now d\<rparr>)))"

text \<open>A call of \<open>loadSegment\<close> that no other callback of the engine interleaves.\<close>

definition loadSegment :: "engine \<Rightarrow> dom \<Rightarrow> segment fetched \<Rightarrow> error + engine" where
  "loadSegment s d response = loadSegment_resume (loadSegment_path s d) s response d"

section \<open>Accessors, cooldown, cleanup\<close>

definition getMetrics :: "engine \<Rightarrow> AdaptiveMetrics" where
  "getMetrics s = adaptiveMetrics s"

definition getNetworkMetrics :: "engine \<Rightarrow> NetworkMetrics" where
  "getNetworkMetrics s = networkMetrics s"

definition updateCooldown :: "engine \<Rightarrow> engine" where
  "updateCooldown s =
     (if qualitySwitchCooldown s > 0
      then s\<lparr>qualitySwitchCooldown := qualitySwitchCooldown s - 1000\<rparr>
      else s)"

text \<open>
  \<open>destroy\<close> clears the two timers and ends the stream of an open media source; no
  field of the engine is assigned.
\<close>

definition destroy :: "engine \<Rightarrow> engine" where
  "destroy s = s"

section \<open>Initialization\<close>

text \<open>
  \<open>selectInitialQuality\<close>: \<open>find\<close> yields the first level that satisfies the
  predicate or \<open>undefined\<close>; \<open>qualities[qualities.length - 1]\<close> and \<open>qualities[0]\<close>
  are \<open>undefined\<close> on an empty ladder.
\<close>

definition selectInitialQuality :: "engine \<Rightarrow> QualityLevel option" where
  "selectInitialQuality s =
     (let ladder = qualities (config s);
          band = bandwidth (networkMetrics s);
          conservative = find (\<lambda>q. bitrate q \<le> 500000) ladder;
          good = (if band > 2000000 then find (\<lambda>q. bitrate q \<le> 2000000) ladder
                  else conservative);
          selectedQuality = (if band > 5000000
                             then (if ladder = [] then None else Some (last ladder))
                             else good)
      in case selectedQuality of
           Some q \<Rightarrow> Some q
         | None \<Rightarrow> (case ladder of [] \<Rightarrow> None | q # _ \<Rightarrow> Some q))"

text \<open>
  \<open>setupSourceBuffer\<close> assigns \<open>this.currentQuality\<close> before it tests it, so the
  assignment stays when it throws: \<open>setupSourceBuffer_selected\<close> is the engine at that
  point.
\<close>

definition setupSourceBuffer_selected :: "engine \<Rightarrow> engine" where
  "setupSourceBuffer_selected s = s\<lparr>currentQuality_lvl := selectInitialQuality s\<rparr>"

definition setupSourceBuffer :: "engine \<Rightarrow> dom \<Rightarrow> error + engine" where
  "setupSourceBuffer s d =
     (if \<not> mediaSource s then Inl MediaSourceNotInitialized
      else
        (let s1 = setupSourceBuffer_selected s
         in case currentQuality_lvl s1 of
              None \<Rightarrow> Inl NoSuitableQualityLevelFound
            | Some q \<Rightarrow>
                if addSourceBuffer_throws d then Inl AddSourceBufferFailed
                else Inr (s1\<lparr>sourceBuffer :=
                               Some \<lparr>sb_mimeType = mimeType q, sb_codec = codec q,
                                     sb_sequence_mode = True, sb_appended = []\<rparr>,
                             adaptiveMetrics := (adaptiveMetrics s1)
                               \<lparr>currentQuality := id_lvl q\<rparr>\<rparr>)))"

definition startMonitoring :: "engine \<Rightarrow> engine" where
  "startMonitoring s = s\<lparr>networkMonitorInterval := True, bufferMonitorInterval := True\<rparr>"

text \<open>
  \<open>initialize\<close> attaches a new media source to the video element and waits for its
  first event: on \<open>sourceopen\<close> it sets up the source buffer and starts the two timers,
  rejecting with whatever \<open>setupSourceBuffer\<close> throws; on \<open>error\<close> it rejects.
\<close>

datatype mediaSourceEvent = SourceOpen | ErrorEvent

definition initialize_attach :: "engine \<Rightarrow> engine" where
  "initialize_attach s = s\<lparr>videoElement := True, mediaSource := True\<rparr>"

definition initialize :: "engine \<Rightarrow> dom \<Rightarrow> mediaSourceEvent \<Rightarrow> error + engine" where
  "initialize s d ev =
     (case ev of
        ErrorEvent \<Rightarrow> Inl MediaSourceError
      | SourceOpen \<Rightarrow>
          (case setupSourceBuffer (initialize_attach s) d of
             Inl e \<Rightarrow> Inl e
           | Inr s' \<Rightarrow> Inr (startMonitoring s')))"

section \<open>Callbacks of a running engine\<close>

text \<open>
  Every callback runs to its end before the next one starts. The callbacks that change
  the engine:
  \<^item> the network timer: \<open>updateNetworkMetrics()\<close> up to the probe's \<open>fetch\<close>, then
    \<open>adaptQuality()\<close>;
  \<^item> the probe settling: the rest of \<open>measureThroughput\<close>, then
    \<open>calculateNetworkStability\<close>;
  \<^item> the buffer timer: \<open>monitorBufferHealth()\<close> (the call of \<open>preventRebuffering\<close>
    that follows it names no method of the class and changes nothing);
  \<^item> the preloaded segments arriving; \<open>updateend\<close> and \<open>error\<close> of the source buffer;
  \<^item> the \<open>fetch\<close> of a \<open>loadSegment\<close> call settling, in the branch the call took;
  \<^item> \<open>updateCooldown\<close>, called by the hook \<open>useAdaptiveStreaming\<close> once a second;
  \<^item> \<open>destroy\<close>.
\<close>

datatype event =
  NetworkTick "connection option" dom
  | ProbeSettled probe
  | BufferTick dom
  | PreloadSettled "segment list" dom
  | UpdateEnd real
  | SourceBufferError dom
  | LoadSegmentSettled loadPath "segment fetched" dom
  | UpdateCooldown
  | Destroy

fun step :: "engine \<Rightarrow> event \<Rightarrow> engine" where
  "step s (NetworkTick conn d) = adaptQuality (updateNetworkMetrics_begin s conn) d"
| "step s (ProbeSettled p) =
     (case measureThroughput s p of Inl e \<Rightarrow> s | Inr s' \<Rightarrow> calculateNetworkStability s')"
| "step s (BufferTick d) = fst (monitorBufferHealth s d)"
| "step s (PreloadSettled nextSegments d) = preloadContent_resume s d nextSegments"
| "step s (UpdateEnd time) = handleBufferUpdate s time"
| "step s (SourceBufferError d) = handleBufferError s d"
| "step s (LoadSegmentSettled path response d) =
     (case loadSegment_resume path s response d of Inl e \<Rightarrow> s | Inr s' \<Rightarrow> s')"
| "step s UpdateCooldown = updateCooldown s"
| "step s Destroy = destroy s"

definition run :: "engine \<Rightarrow> event list \<Rightarrow> engine" where
  "run s evs = foldl step s evs"

text \<open>
  The engines a program can hold: a constructed one, one on which \<open>initialize\<close> has been
  called (whatever became of the call), and what the callbacks make of these.
\<close>

inductive reachable :: "engine \<Rightarrow> bool" where
  constructed: "reachable (constructor cfg)"
| attached: "reachable s \<Longrightarrow> reachable (initialize_attach s)"
| selected: "reachable s \<Longrightarrow> reachable (setupSourceBuffer_selected s)"
| initialized: "reachable s \<Longrightarrow> initialize s d ev = Inr s' \<Longrightarrow> reachable s'"
| stepped: "reachable s \<Longrightarrow> reachable (step s e)"

section \<open>Timers\<close>

text \<open>
  Three timers drive a running engine. \<open>startMonitoring\<close> starts
  \<open>setInterval(..., config.networkCheckInterval)\<close> for the network tick and
  \<open>setInterval(..., 1000)\<close> for the buffer tick; the hook \<open>useAdaptiveStreaming\<close>,
  when \<open>initialize\<close> has resolved, starts \<open>setInterval(..., 1000)\<close>, whose callback
  calls \<open>updateCooldown\<close>. The engine reads no clock for its cooldown.

  A timed trace pairs each callback with the time it runs at, in milliseconds since the
  timers were started. In a \<open>timerTrace\<close> the times do not decrease and the callbacks of
  each timer are there at every multiple of its period, from the first on.
  \<open>evaluationSwitchTimes\<close> are the times of the network ticks that switched the quality.
\<close>

fun isNetworkTick :: "event \<Rightarrow> bool" where
  "isNetworkTick (NetworkTick conn d) = True"
| "isNetworkTick e = False"

fun isBufferTick :: "event \<Rightarrow> bool" where
  "isBufferTick (BufferTick d) = True"
| "isBufferTick e = False"

fun isUpdateCooldown :: "event \<Rightarrow> bool" where
  "isUpdateCooldown UpdateCooldown = True"
| "isUpdateCooldown e = False"

definition timesOf :: "(event \<Rightarrow> bool) \<Rightarrow> (real \<times> event) list \<Rightarrow> real list" where
  "timesOf kind trace = map fst (filter (\<lambda>te. kind (snd te)) trace)"

fun everyPeriodFrom :: "real \<Rightarrow> nat \<Rightarrow> real list \<Rightarrow> bool" where
  "everyPeriodFrom period k [] = True"
| "everyPeriodFrom period k (t # ts) = (t = real k * period \<and> everyPeriodFrom period (Suc k) ts)"

definition timerTrace :: "AdaptiveStreamingConfig \<Rightarrow> (real \<times> event) list \<Rightarrow> bool" where
  "timerTrace cfg trace =
     (sorted (map fst trace)
      \<and> everyPeriodFrom (networkCheckInterval cfg) 1 (timesOf isNetworkTick trace)
      \<and> everyPeriodFrom 1000 1 (timesOf isBufferTick trace)
      \<and> everyPeriodFrom 1000 1 (timesOf isUpdateCooldown trace))"

fun evaluationSwitchTimes :: "engine \<Rightarrow> (real \<times> event) list \<Rightarrow> real list" where
  "evaluationSwitchTimes s [] = []"
| "evaluationSwitchTimes s ((t, e) # rest) =
     (if isNetworkTick e
         \<and> qualitySwitches (adaptiveMetrics (step s e)) \<noteq> qualitySwitches (adaptiveMetrics s)
      then [t] else [])
     @ evaluationSwitchTimes (step s e) rest"

section \<open>Example engines\<close>

text \<open>
  A ladder of three levels in ascending bitrate, a configuration over it, and an engine as
  \<open>initialize\<close> and later switches leave it: attached, with the given level current and
  the given bandwidth and throughput measured. \<open>dom0\<close> is a browser whose source buffer
  holds the range from 0 to 10 seconds while the video plays at second 9.

  The example browsers multiply exactly. The products the examples below take, 0.8 times 0,
  1000000, 8000000 and 10000000, are 0, 800000, 6400000 and 8000000 in JavaScript's doubles
  as well.
\<close>

definition lvl240 :: QualityLevel where
  "lvl240 = \<lparr>id_lvl = ''240p'', bitrate = 400000, width = 426, height = 240,
             codec = ''avc1.42E01E'', mimeType = ''video/mp4'', url = ''/streams/240p/'',
             bandwidth_lvl = 400000\<rparr>"

definition lvl720 :: QualityLevel where
  "lvl720 = \<lparr>id_lvl = ''720p'', bitrate = 2500000, width = 1280, height = 720,
             codec = ''avc1.4D401F'', mimeType = ''video/mp4'', url = ''/streams/720p/'',
             bandwidth_lvl = 2500000\<rparr>"

definition lvl1080 :: QualityLevel where
  "lvl1080 = \<lparr>id_lvl = ''1080p'', bitrate = 5000000, width = 1920, height = 1080,
              codec = ''avc1.640028'', mimeType = ''video/mp4'', url = ''/streams/1080p/'',
              bandwidth_lvl = 5000000\<rparr>"

definition ladder3 :: "QualityLevel list" where
  "ladder3 = [lvl240, lvl720, lvl1080]"

definition config3 :: AdaptiveStreamingConfig where
  "config3 = \<lparr>qualities = ladder3, networkCheckInterval = 2000, targetBufferLength = 30,
              maxBufferLength = 60, minBufferLength = 5, lowLatencyMode = False,
              segmentDuration = 4, rebufferThreshold = 2, qualitySwitchThreshold = 0.8\<rparr>"

definition sb_of :: "QualityLevel \<Rightarrow> SourceBuffer" where
  "sb_of q = \<lparr>sb_mimeType = mimeType q, sb_codec = codec q, sb_sequence_mode = True,
             sb_appended = []\<rparr>"

definition engineAt :: "QualityLevel \<Rightarrow> real \<Rightarrow> real \<Rightarrow> engine" where
  "engineAt q band thru =
     (constructor config3)
       \<lparr>mediaSource := True, sourceBuffer := Some (sb_of q), videoElement := True,
        currentQuality_lvl := Some q,
        networkMetrics := initializeNetworkMetrics\<lparr>bandwidth := band, throughput := thru\<rparr>,
        adaptiveMetrics := initializeAdaptiveMetrics\<lparr>currentQuality := id_lvl q\<rparr>,
        networkMonitorInterval := True, bufferMonitorInterval := True\<rparr>"

definition dom0 :: dom where
  "dom0 = \<lparr>currentTime = 9, buffered = [(0, 10)], updating = False, now = 0,
           addSourceBuffer_throws = False, appendBuffer_throws = False,
     jsTimes = (\<lambda>x y. x * y)\<rparr>"

text \<open>
  Two more browsers: one whose video has run past the buffered range, one whose source
  buffer holds nothing.
\<close>

definition domPast :: dom where
  "domPast = \<lparr>currentTime = 12, buffered = [(0, 10)], updating = False, now = 0,
              addSourceBuffer_throws = False, appendBuffer_throws = False,
     jsTimes = (\<lambda>x y. x * y)\<rparr>"

definition domEmpty :: dom where
  "domEmpty = \<lparr>currentTime = 0, buffered = [], updating = False, now = 0,
               addSourceBuffer_throws = False, appendBuffer_throws = False,
     jsTimes = (\<lambda>x y. x * y)\<rparr>"

text \<open>The throughput of the sample an operation leaves, when it returns.\<close>

definition throughput_of :: "error + engine \<Rightarrow> error + real" where
  "throughput_of r = map_sum (\<lambda>e. e) (\<lambda>s. throughput (networkMetrics s)) r"

text \<open>
  The class of user experience as the specification words it, from buffer health and
  network stability: both at least 90, excellent; both at least 70, good; both at least
  50, fair; otherwise poor. The engine has no such function; this one is what its
  \<open>userExperience\<close> field is compared with.
\<close>

definition spec_userExperienceClass :: "real \<Rightarrow> real \<Rightarrow> userExperience" where
  "spec_userExperienceClass health stability =
     (if health \<ge> 90 \<and> stability \<ge> 90 then Excellent
      else if health \<ge> 70 \<and> stability \<ge> 70 then Good
      else if health \<ge> 50 \<and> stability \<ge> 50 then Fair
      else Poor)"

text \<open>A configuration with no quality level, and a browser whose source buffer is updating.\<close>

definition configEmpty :: AdaptiveStreamingConfig where
  "configEmpty = config3\<lparr>qualities := []\<rparr>"

definition domBusy :: dom where
  "domBusy = dom0\<lparr>updating := True\<rparr>"

text \<open>
  What a callback pushes onto \<open>segmentQueue\<close>: the segment of a \<open>loadSegment\<close> call
  that took the busy branch and whose \<open>fetch\<close> resolved.
\<close>

fun queued :: "event \<Rightarrow> segment list" where
  "queued (LoadSegmentSettled QueuePath (Resolved seg) d) = [seg]"
| "queued e = []"

text \<open>
  What a callback adds to the counter of rebuffering events: one, for an \<open>updateend\<close>
  that finds \<open>isBuffering\<close> set.
\<close>

fun counted :: "engine \<Rightarrow> event \<Rightarrow> nat" where
  "counted s (UpdateEnd time) = (if isBuffering s then 1 else 0)"
| "counted s e = 0"

text \<open>
  A connection of 10 megabits per second, and the engine that started at 240p after a
  network tick has switched it to 1080p.
\<close>

definition conn10 :: connection where
  "conn10 = \<lparr>effectiveType = None, downlink = 10\<rparr>"

definition engineSwitched :: engine where
  "engineSwitched = step (engineAt lvl240 10000000 8000000) (NetworkTick None dom0)"

text \<open>
  How a callback other than \<open>updateCooldown\<close> relates the switch counter and the
  cooldown: both as they were, or one more switch and a cooldown of 2000.
\<close>

definition sameOrSwitched :: "engine \<Rightarrow> engine \<Rightarrow> bool" where
  "sameOrSwitched s s' =
     (if qualitySwitches (adaptiveMetrics s') = qualitySwitches (adaptiveMetrics s)
      then qualitySwitchCooldown s' = qualitySwitchCooldown s
      else qualitySwitches (adaptiveMetrics s') = qualitySwitches (adaptiveMetrics s) + 1
           \<and> qualitySwitchCooldown s' = 2000)"

text \<open>
  A connection of 1 megabit per second; a configuration whose network tick runs every 900
  milliseconds, the engine \<open>initialize\<close> makes of it, and 3600 milliseconds of its
  timers: a probe that takes 500 milliseconds measures 8000000 bits per second, the
  connection is fast until the last network tick finds it slow, and the source buffer
  holds nothing.
\<close>

definition conn1 :: connection where
  "conn1 = \<lparr>effectiveType = None, downlink = 1\<rparr>"

definition config900 :: AdaptiveStreamingConfig where
  "config900 = config3\<lparr>networkCheckInterval := 900\<rparr>"

definition engine900 :: engine where
  "engine900 = (engineAt lvl240 0 0)\<lparr>config := config900\<rparr>"

definition trace900 :: "(real \<times> event) list" where
  "trace900 =
     [(900, NetworkTick (Some conn10) domEmpty),
      (1000, BufferTick domEmpty),
      (1000, UpdateCooldown),
      (1400, ProbeSettled (ProbeResponse True (Some 500000) 500)),
      (1800, NetworkTick (Some conn10) domEmpty),
      (2000, BufferTick domEmpty),
      (2000, UpdateCooldown),
      (2300, ProbeSettled (ProbeResponse True (Some 500000) 500)),
      (2700, NetworkTick (Some conn10) domEmpty),
      (3000, BufferTick domEmpty),
      (3000, UpdateCooldown),
      (3200, ProbeSettled (ProbeResponse True (Some 500000) 500)),
      (3600, NetworkTick (Some conn1) domEmpty)]"

section \<open>The selected quality\<close>

lemma scanLadder_sorted:
  "sorted (map bitrate qs) \<Longrightarrow>
   scanLadder t sel qs =
     (if filter (\<lambda>q. bitrate q \<le> t) qs = [] then sel
      else last (filter (\<lambda>q. bitrate q \<le> t) qs))"
proof (induction qs arbitrary: sel)
  case Nil
  show ?case by simp
next
  case (Cons q rest)
  show ?case
  proof (cases "bitrate q \<le> t")
    case True
    with Cons show ?thesis by simp
  next
    case False
    have "\<forall>l \<in> set rest. bitrate q \<le> bitrate l"
      using Cons.prems by simp
    with False have "filter (\<lambda>q. bitrate q \<le> t) rest = []"
      by (auto simp: filter_empty_conv)
    with False show ?thesis by simp
  qed
qed

lemma last_filter_sorted_max:
  assumes "sorted (map bitrate qs)" and "l \<in> set qs" and "bitrate l \<le> t"
  shows "bitrate l \<le> bitrate (last (filter (\<lambda>q. bitrate q \<le> t) qs))"
  using assms
proof (induction qs)
  case Nil
  then show ?case by simp
next
  case (Cons q rest)
  show ?case
  proof (cases "filter (\<lambda>q. bitrate q \<le> t) rest = []")
    case True
    then have "l \<notin> set rest" using Cons.prems(3) by (auto simp: filter_empty_conv)
    with Cons.prems have "l = q" by simp
    with True Cons.prems show ?thesis by simp
  next
    case nonempty: False
    show ?thesis
    proof (cases "l = q")
      case True
      have "last (filter (\<lambda>q. bitrate q \<le> t) rest) \<in> set (filter (\<lambda>q. bitrate q \<le> t) rest)"
        using nonempty by (rule last_in_set)
      then have "last (filter (\<lambda>q. bitrate q \<le> t) rest) \<in> set rest" by simp
      then have "bitrate q \<le> bitrate (last (filter (\<lambda>q. bitrate q \<le> t) rest))"
        using Cons.prems(1) by simp
      with True nonempty show ?thesis by simp
    next
      case False
      with Cons nonempty show ?thesis by auto
    qed
  qed
qed

text \<open>
  The selection at any target: on a non-empty ascending ladder it is the last level within
  the target, the first level when there is none.
\<close>

lemma selectQualityForBitrate_sorted:
  assumes "ladder \<noteq> []" and "sorted (map bitrate ladder)"
  shows "selectQualityForBitrate ladder t
           = Some (if filter (\<lambda>l. bitrate l \<le> t) ladder = [] then hd ladder
                   else last (filter (\<lambda>l. bitrate l \<le> t) ladder))"
proof -
  obtain first rest where ladder: "ladder = first # rest"
    using assms(1) by (cases ladder) auto
  show ?thesis
    using scanLadder_sorted [OF assms(2), of t first]
    by (simp add: selectQualityForBitrate_def ladder)
qed

text \<open>
  C1. On a non-empty ladder in ascending order of bitrate, the level that the tick's
  evaluation selects (\<open>selectQualityForBitrate\<close> at the target of \<open>adaptQuality\<close>,
  the product \<open>min(bandwidth, throughput) * 0.8\<close> as the code computes it) is the last
  level of the ladder whose bitrate is within that target, which no level within the target
  exceeds in bitrate; when no level is within the target it is the first level of the
  ladder. A level is always selected, and when \<open>adaptQuality\<close> evaluates (a current
  quality, no cooldown) with the browser accepting the new source buffer, the engine's
  current quality has the id of the selected level afterwards. Where the double product is
  the exact one, the target is 0.8 times the smaller of bandwidth and throughput.
\<close>

theorem selected_quality_is_highest_within_target:
  assumes nonempty: "qualities (config s) \<noteq> []"
    and ascending: "sorted (map bitrate (qualities (config s)))"
  shows "\<exists>q. selectQualityForBitrate (qualities (config s)) (targetBitrate_of d (networkMetrics s)) = Some q
           \<and> q \<in> set (qualities (config s))
           \<and> q = (let fits = filter (\<lambda>l. bitrate l \<le> jsTimes d (min (bandwidth (networkMetrics s)) (throughput (networkMetrics s))) 0.8)
                                (qualities (config s))
                  in if fits = [] then hd (qualities (config s)) else last fits)
           \<and> (\<forall>l \<in> set (qualities (config s)).
                 bitrate l \<le> jsTimes d (min (bandwidth (networkMetrics s)) (throughput (networkMetrics s))) 0.8
                 \<longrightarrow> bitrate l \<le> bitrate q
                     \<and> bitrate q \<le> jsTimes d (min (bandwidth (networkMetrics s)) (throughput (networkMetrics s))) 0.8)
           \<and> (currentQuality_lvl s \<noteq> None \<and> qualitySwitchCooldown s \<le> 0 \<and> mediaSource s
                \<and> sourceBuffer s \<noteq> None \<and> \<not> addSourceBuffer_throws d
               \<longrightarrow> map_option id_lvl (currentQuality_lvl (adaptQuality s d)) = Some (id_lvl q))
           \<and> (jsTimes d (min (bandwidth (networkMetrics s)) (throughput (networkMetrics s))) 0.8
                 = 0.8 * min (bandwidth (networkMetrics s)) (throughput (networkMetrics s))
               \<longrightarrow> targetBitrate_of d (networkMetrics s)
                     = 0.8 * min (bandwidth (networkMetrics s)) (throughput (networkMetrics s)))"
proof -
  define ladder where "ladder = qualities (config s)"
  define t where "t = jsTimes d (min (bandwidth (networkMetrics s)) (throughput (networkMetrics s))) 0.8"
  define fits where "fits = filter (\<lambda>l. bitrate l \<le> t) ladder"
  define q where "q = (if fits = [] then hd ladder else last fits)"
  have target: "targetBitrate_of d (networkMetrics s) = t"
    by (simp add: targetBitrate_of_def t_def)
  have ne: "ladder \<noteq> []"
    using nonempty by (simp add: ladder_def)
  have sorted: "sorted (map bitrate ladder)"
    using ascending by (simp add: ladder_def)
  have sel: "selectQualityForBitrate ladder t = Some q"
    using selectQualityForBitrate_sorted [OF ne sorted, of t] by (simp add: q_def fits_def)
  have mem: "q \<in> set ladder"
  proof (cases "fits = []")
    case True
    then show ?thesis using ne by (simp add: q_def)
  next
    case False
    then have "last fits \<in> set fits" by (rule last_in_set)
    with False show ?thesis by (simp add: q_def fits_def)
  qed
  have best: "bitrate l \<le> bitrate q \<and> bitrate q \<le> t"
    if l: "l \<in> set ladder" "bitrate l \<le> t" for l
  proof -
    from l have fne: "fits \<noteq> []" by (auto simp: fits_def filter_empty_conv)
    then have "last fits \<in> set fits" by (rule last_in_set)
    then have "bitrate (last fits) \<le> t" by (simp add: fits_def)
    moreover have "bitrate l \<le> bitrate (last fits)"
      using last_filter_sorted_max [OF sorted l] by (simp add: fits_def)
    ultimately show ?thesis using fne by (simp add: q_def)
  qed
  have tick: "map_option id_lvl (currentQuality_lvl (adaptQuality s d)) = Some (id_lvl q)"
    if "currentQuality_lvl s \<noteq> None" "qualitySwitchCooldown s \<le> 0" "mediaSource s"
      "sourceBuffer s \<noteq> None" "\<not> addSourceBuffer_throws d"
    using that sel
    by (auto simp: adaptQuality_def target ladder_def [symmetric] switchQuality_def
        switchQuality_commit_def)
  show ?thesis
    using sel mem best tick
    unfolding target ladder_def [symmetric] t_def [symmetric] fits_def [symmetric] Let_def
      q_def [symmetric]
    by (intro exI [of _ q]) (simp add: q_def)
qed

lemma sorted_ladder3: "sorted (map bitrate ladder3)"
  by (simp add: ladder3_def lvl240_def lvl720_def lvl1080_def)

theorem selected_quality_witness:
  "qualities (config (engineAt lvl240 10000000 10000000)) \<noteq> []
   \<and> sorted (map bitrate (qualities (config (engineAt lvl240 10000000 10000000))))
   \<and> selectQualityForBitrate ladder3 8000000 = Some lvl1080
   \<and> map_option id_lvl (currentQuality_lvl (adaptQuality (engineAt lvl240 10000000 10000000) dom0))
       = Some ''1080p''"
proof -
  let ?s = "engineAt lvl240 10000000 10000000"
  have cfg: "qualities (config ?s) = ladder3"
    by (simp add: engineAt_def constructor_def config3_def)
  have nm: "bandwidth (networkMetrics ?s) = 10000000" "throughput (networkMetrics ?s) = 10000000"
    by (simp_all add: engineAt_def constructor_def)
  have times: "jsTimes dom0 = (\<lambda>x y. x * y)"
    by (simp add: dom0_def)
  have h1: "qualities (config ?s) \<noteq> []"
    by (simp add: cfg ladder3_def)
  have h2: "sorted (map bitrate (qualities (config ?s)))"
    by (simp add: cfg sorted_ladder3)
  have pre: "currentQuality_lvl ?s \<noteq> None \<and> qualitySwitchCooldown ?s \<le> 0 \<and> mediaSource ?s
             \<and> sourceBuffer ?s \<noteq> None \<and> \<not> addSourceBuffer_throws dom0"
    by (simp add: engineAt_def constructor_def dom0_def)
  from selected_quality_is_highest_within_target [OF h1 h2, of dom0]
  obtain q where sel: "selectQualityForBitrate ladder3 (targetBitrate_of dom0 (networkMetrics ?s)) = Some q"
    and q: "q = (let fits = filter (\<lambda>l. bitrate l \<le> jsTimes dom0 (min (bandwidth (networkMetrics ?s)) (throughput (networkMetrics ?s))) 0.8) ladder3
                 in if fits = [] then hd ladder3 else last fits)"
    and tick: "map_option id_lvl (currentQuality_lvl (adaptQuality ?s dom0)) = Some (id_lvl q)"
    using pre unfolding cfg by blast
  have "q = lvl1080"
    unfolding q nm times by (simp add: ladder3_def lvl240_def lvl720_def lvl1080_def)
  moreover have "targetBitrate_of dom0 (networkMetrics ?s) = 8000000"
    by (simp add: targetBitrate_of_def nm times)
  ultimately show ?thesis
    using sel tick h1 h2 by (simp add: lvl1080_def)
qed

section \<open>What a switch leaves alone\<close>

lemma switchQuality_frame:
  "bufferHealth (adaptiveMetrics (switchQuality s d q)) = bufferHealth (adaptiveMetrics s)"
  "userExperience (adaptiveMetrics (switchQuality s d q)) = userExperience (adaptiveMetrics s)"
  "rebufferingEvents (adaptiveMetrics (switchQuality s d q)) = rebufferingEvents (adaptiveMetrics s)"
  "segmentQueue (switchQuality s d q) = segmentQueue s"
  "config (switchQuality s d q) = config s"
  "isBuffering (switchQuality s d q) = isBuffering s"
  "networkMetrics (switchQuality s d q) = networkMetrics s"
  by (simp_all add: switchQuality_def switchQuality_commit_def)

lemma handleRebufferingRisk_frame:
  "bufferHealth (adaptiveMetrics (fst (handleRebufferingRisk s d))) = bufferHealth (adaptiveMetrics s)"
  "userExperience (adaptiveMetrics (fst (handleRebufferingRisk s d))) = userExperience (adaptiveMetrics s)"
  "rebufferingEvents (adaptiveMetrics (fst (handleRebufferingRisk s d))) = rebufferingEvents (adaptiveMetrics s)"
  "segmentQueue (fst (handleRebufferingRisk s d)) = segmentQueue s"
  "config (fst (handleRebufferingRisk s d)) = config s"
  "isBuffering (fst (handleRebufferingRisk s d)) = isBuffering s"
  by (simp_all add: handleRebufferingRisk_def Let_def switchQuality_frame)

section \<open>Buffer health\<close>

text \<open>
  C5, as the code has it. With a video element and a source buffer attached, the buffer
  tick sets the buffer health to 0 when there are no buffered ranges. Otherwise, for a
  target buffer length other than 0, it sets it to the smaller of 100 and the buffer ahead
  over the target buffer length times 100, where the buffer ahead is the end of the last
  buffered range minus the position, whether or not the position lies in a range; that
  health never exceeds 100, and for a positive target length it is non-negative exactly
  when the position is not beyond the end of the last range.
\<close>

theorem buffer_health_of_tick:
  assumes "videoElement s" and "sourceBuffer s \<noteq> None"
  shows "(buffered d = [] \<longrightarrow> bufferHealth (getMetrics (fst (monitorBufferHealth s d))) = 0)
         \<and> (buffered d \<noteq> [] \<and> targetBufferLength (config s) \<noteq> 0 \<longrightarrow>
              bufferHealth (getMetrics (fst (monitorBufferHealth s d)))
                = min 100 ((snd (last (buffered d)) - currentTime d)
                             / targetBufferLength (config s) * 100)
              \<and> bufferHealth (getMetrics (fst (monitorBufferHealth s d))) \<le> 100)
         \<and> (buffered d \<noteq> [] \<and> 0 < targetBufferLength (config s) \<longrightarrow>
              (0 \<le> bufferHealth (getMetrics (fst (monitorBufferHealth s d)))
               \<longleftrightarrow> currentTime d \<le> snd (last (buffered d))))"
proof -
  have empty: "bufferHealth (getMetrics (fst (monitorBufferHealth s d))) = 0"
    if "buffered d = []"
    using assms that by (auto simp: monitorBufferHealth_def getMetrics_def)
  have health: "bufferHealth (getMetrics (fst (monitorBufferHealth s d)))
           = min 100 ((snd (last (buffered d)) - currentTime d)
                        / targetBufferLength (config s) * 100)"
    if "buffered d \<noteq> []"
    using assms that
    by (auto simp: monitorBufferHealth_def getMetrics_def Let_def bufferAhead_def
        handleRebufferingRisk_frame)
  have sign: "0 \<le> min 100 ((e - c) / t * 100) \<longleftrightarrow> c \<le> e" if "0 < t" for e c t :: real
  proof -
    have "0 \<le> (e - c) / t * 100 \<longleftrightarrow> 0 \<le> e - c"
      using that by (simp add: zero_le_mult_iff zero_le_divide_iff)
    then show ?thesis by auto
  qed
  have upper: "bufferHealth (getMetrics (fst (monitorBufferHealth s d))) \<le> 100"
    if "buffered d \<noteq> []"
    unfolding health [OF that] by simp
  have lower: "0 \<le> bufferHealth (getMetrics (fst (monitorBufferHealth s d)))
               \<longleftrightarrow> currentTime d \<le> snd (last (buffered d))"
    if "buffered d \<noteq> []" "0 < targetBufferLength (config s)"
    unfolding health [OF that(1)] using sign [OF that(2)] by simp
  show ?thesis
    using empty health upper lower by blast
qed

theorem buffer_health_witness:
  "videoElement (engineAt lvl240 0 0) \<and> sourceBuffer (engineAt lvl240 0 0) \<noteq> None
   \<and> buffered dom0 \<noteq> [] \<and> buffered domPast \<noteq> [] \<and> buffered domEmpty = []
   \<and> 0 < targetBufferLength (config (engineAt lvl240 0 0))
   \<and> bufferHealth (getMetrics (fst (monitorBufferHealth (engineAt lvl240 0 0) dom0))) = 10 / 3
   \<and> bufferHealth (getMetrics (fst (monitorBufferHealth (engineAt lvl240 0 0) domPast))) = - (20 / 3)
   \<and> bufferHealth (getMetrics (fst (monitorBufferHealth (engineAt lvl240 0 0) domEmpty))) = 0"
proof -
  have h: "videoElement (engineAt lvl240 0 0)" "sourceBuffer (engineAt lvl240 0 0) \<noteq> None"
    by (simp_all add: engineAt_def constructor_def)
  have t: "targetBufferLength (config (engineAt lvl240 0 0)) = 30"
    by (simp add: engineAt_def constructor_def config3_def)
  have b: "buffered dom0 \<noteq> []" "buffered domPast \<noteq> []" "buffered domEmpty = []"
    by (simp_all add: dom0_def domPast_def domEmpty_def)
  show ?thesis
    using h b
      buffer_health_of_tick [OF h, of dom0] buffer_health_of_tick [OF h, of domPast]
      buffer_health_of_tick [OF h, of domEmpty]
    by (simp add: t dom0_def domPast_def)
qed

text \<open>
  The claim as stated fails when the position is past every buffered range: with the range
  from 0 to 10 buffered and the video at second 12, the buffer ahead is \<open>-2\<close>, not 0,
  and the health is negative.
\<close>

theorem buffer_health_counterexample:
  "\<not> 0 \<le> bufferHealth (getMetrics (fst (monitorBufferHealth (engineAt lvl240 0 0) domPast)))
   \<and> bufferAhead domPast \<noteq> 0
   \<and> bufferAhead domPast < 0"
  by (simp add: monitorBufferHealth_def getMetrics_def Let_def bufferAhead_def
      handleRebufferingRisk_frame engineAt_def constructor_def config3_def domPast_def)

section \<open>A failing throughput probe\<close>

lemma measureThroughput_total: "\<not> isl (measureThroughput s p)"
  by (simp add: measureThroughput_def split: sum.splits)

lemma measureThroughput_rejected:
  "measureThroughput s ProbeRejected
     = Inr (s\<lparr>networkMetrics := (networkMetrics s)\<lparr>throughput := 1000000\<rparr>\<rparr>)"
  by (simp add: measureThroughput_def measureThroughput_try_def)

lemma measureThroughput_unusable:
  "\<not> (ok \<and> 0 < duration) \<Longrightarrow> measureThroughput s (ProbeResponse ok len duration) = Inr s"
  by (auto simp: measureThroughput_def measureThroughput_try_def)

lemma calculateNetworkStability_networkMetrics:
  "networkMetrics (calculateNetworkStability s) = networkMetrics s"
  by (simp add: calculateNetworkStability_def Let_def)

text \<open>
  C6, as the code has it. \<open>updateNetworkMetrics\<close> never raises to its caller. When the
  probe's \<open>fetch\<close> rejects, the throughput of the sample becomes the fixed estimate of
  1000000 bits per second, whatever it was before; when the probe answers with a response
  that is not ok, or in no measurable time, the throughput keeps its previous value.
\<close>

theorem probe_failure_falls_back_to_constant:
  "\<not> isl (updateNetworkMetrics s conn p)
   \<and> throughput_of (updateNetworkMetrics s conn ProbeRejected) = Inr 1000000
   \<and> throughput_of (measureThroughput s ProbeRejected) = Inr 1000000
   \<and> (\<not> (ok \<and> 0 < duration) \<longrightarrow>
        throughput_of (updateNetworkMetrics s conn (ProbeResponse ok len duration))
          = Inr (throughput (networkMetrics s)))"
proof -
  have total: "\<not> isl (updateNetworkMetrics s conn p)"
    by (simp add: updateNetworkMetrics_def split: sum.splits)
  have start: "throughput (networkMetrics (updateNetworkMetrics_begin s conn)) = throughput (networkMetrics s)"
    by (simp add: updateNetworkMetrics_begin_def split: option.splits)
  have rejected: "throughput_of (updateNetworkMetrics s conn ProbeRejected) = Inr 1000000"
    by (simp add: throughput_of_def updateNetworkMetrics_def updateNetworkMetrics_try_def
        measureThroughput_rejected calculateNetworkStability_networkMetrics)
  have direct: "throughput_of (measureThroughput s ProbeRejected) = Inr 1000000"
    by (simp add: throughput_of_def measureThroughput_rejected)
  have unusable: "throughput_of (updateNetworkMetrics s conn (ProbeResponse ok len duration))
          = Inr (throughput (networkMetrics s))" if "\<not> (ok \<and> 0 < duration)"
    using that
    by (simp add: throughput_of_def updateNetworkMetrics_def updateNetworkMetrics_try_def
        measureThroughput_unusable calculateNetworkStability_networkMetrics start)
  show ?thesis using total rejected direct unusable by blast
qed

theorem probe_failure_witness:
  "\<not> (False \<and> (0::real) < 250)
   \<and> throughput_of (updateNetworkMetrics (engineAt lvl720 3000000 5000000) None
        (ProbeResponse False None 250)) = Inr 5000000
   \<and> throughput_of (updateNetworkMetrics (engineAt lvl720 3000000 5000000) None ProbeRejected)
       = Inr 1000000"
  using probe_failure_falls_back_to_constant
    [of "engineAt lvl720 3000000 5000000" None ProbeRejected False 250 None]
  by (simp add: engineAt_def constructor_def)

text \<open>
  The claim as stated fails on a rejected probe: a throughput of 5000000 before the tick is
  1000000 after it.
\<close>

theorem probe_failure_counterexample:
  "throughput (networkMetrics (engineAt lvl720 3000000 5000000)) = 5000000
   \<and> throughput_of (updateNetworkMetrics (engineAt lvl720 3000000 5000000) None ProbeRejected)
       \<noteq> Inr (throughput (networkMetrics (engineAt lvl720 3000000 5000000)))"
  by (simp add: throughput_of_def updateNetworkMetrics_def updateNetworkMetrics_try_def
      measureThroughput_rejected calculateNetworkStability_networkMetrics
      updateNetworkMetrics_begin_def engineAt_def constructor_def)

section \<open>The user experience field\<close>

lemma adaptQuality_userExperience:
  "userExperience (adaptiveMetrics (adaptQuality s d)) = userExperience (adaptiveMetrics s)"
  by (simp add: adaptQuality_def switchQuality_frame split: option.splits)

lemma updateNetworkMetrics_begin_adaptiveMetrics:
  "adaptiveMetrics (updateNetworkMetrics_begin s conn) = adaptiveMetrics s"
  by (simp add: updateNetworkMetrics_begin_def split: option.splits)

lemma measureThroughput_adaptiveMetrics:
  "measureThroughput s p = Inr s' \<Longrightarrow> adaptiveMetrics s' = adaptiveMetrics s"
  by (auto simp: measureThroughput_def measureThroughput_try_def Let_def
      split: probe.splits if_splits)

lemma calculateNetworkStability_userExperience:
  "userExperience (adaptiveMetrics (calculateNetworkStability s)) = userExperience (adaptiveMetrics s)"
  by (simp add: calculateNetworkStability_def Let_def)

lemma monitorBufferHealth_userExperience:
  "userExperience (adaptiveMetrics (fst (monitorBufferHealth s d))) = userExperience (adaptiveMetrics s)"
  by (simp add: monitorBufferHealth_def Let_def handleRebufferingRisk_frame)

lemma appendTo_adaptiveMetrics: "adaptiveMetrics (appendTo s seg) = adaptiveMetrics s"
  by (simp add: appendTo_def split: option.splits)

lemma preloadContent_resume_adaptiveMetrics:
  "adaptiveMetrics (preloadContent_resume s d segs) = adaptiveMetrics s"
  by (simp add: preloadContent_resume_def appendTo_adaptiveMetrics split: list.splits)

lemma handleBufferUpdate_userExperience:
  "userExperience (adaptiveMetrics (handleBufferUpdate s t)) = userExperience (adaptiveMetrics s)"
  by (simp add: handleBufferUpdate_def)

lemma handleBufferError_userExperience:
  "userExperience (adaptiveMetrics (handleBufferError s d)) = userExperience (adaptiveMetrics s)"
  by (simp add: handleBufferError_def Let_def switchQuality_frame split: option.splits)

lemma loadSegment_resume_userExperience:
  "loadSegment_resume path s r d = Inr s' \<Longrightarrow>
   userExperience (adaptiveMetrics s') = userExperience (adaptiveMetrics s)"
  by (auto simp: loadSegment_resume_def handleBufferError_userExperience appendTo_adaptiveMetrics
      split: loadPath.splits fetched.splits if_splits)

lemma step_userExperience:
  "userExperience (adaptiveMetrics (step s e)) = userExperience (adaptiveMetrics s)"
proof (cases e)
  case (NetworkTick conn d)
  then show ?thesis
    by (simp add: adaptQuality_userExperience updateNetworkMetrics_begin_adaptiveMetrics)
next
  case (ProbeSettled p)
  then show ?thesis
    by (auto simp: calculateNetworkStability_userExperience
        dest: measureThroughput_adaptiveMetrics split: sum.splits)
next
  case (BufferTick d)
  then show ?thesis by (simp add: monitorBufferHealth_userExperience)
next
  case (PreloadSettled segs d)
  then show ?thesis by (simp add: preloadContent_resume_adaptiveMetrics)
next
  case (UpdateEnd t)
  then show ?thesis by (simp add: handleBufferUpdate_userExperience)
next
  case (SourceBufferError d)
  then show ?thesis by (simp add: handleBufferError_userExperience)
next
  case (LoadSegmentSettled path r d)
  then show ?thesis
    by (auto dest: loadSegment_resume_userExperience split: sum.splits)
next
  case UpdateCooldown
  then show ?thesis by (simp add: updateCooldown_def)
next
  case Destroy
  then show ?thesis by (simp add: destroy_def)
qed

lemma initialize_userExperience:
  "initialize s d ev = Inr s' \<Longrightarrow>
   userExperience (adaptiveMetrics s') = userExperience (adaptiveMetrics s)"
  by (auto simp: initialize_def setupSourceBuffer_def setupSourceBuffer_selected_def
      initialize_attach_def startMonitoring_def Let_def
      split: mediaSourceEvent.splits sum.splits option.splits if_splits)

text \<open>
  C7, as the code has it. \<open>initializeAdaptiveMetrics\<close> sets \<open>userExperience\<close> to
  \<open>good\<close> and no operation of the engine assigns it: in every reachable engine
  \<open>getMetrics()\<close> reports \<open>good\<close>, whatever the buffer health and the network
  stability are.
\<close>

theorem userExperience_is_constant:
  "reachable s \<Longrightarrow> userExperience (getMetrics s) = Good"
proof (induction rule: reachable.induct)
  case (constructed cfg)
  show ?case by (simp add: getMetrics_def constructor_def initializeAdaptiveMetrics_def)
next
  case (attached s)
  then show ?case by (simp add: getMetrics_def initialize_attach_def)
next
  case (selected s)
  then show ?case by (simp add: getMetrics_def setupSourceBuffer_selected_def)
next
  case (initialized s d ev s')
  then show ?case using initialize_userExperience [of s d ev s'] by (simp add: getMetrics_def)
next
  case (stepped s e)
  then show ?case by (simp add: getMetrics_def step_userExperience)
qed

lemma initialize_config3:
  "initialize (constructor config3) domEmpty SourceOpen = Inr (engineAt lvl240 0 0)"
  by (simp add: initialize_def setupSourceBuffer_def setupSourceBuffer_selected_def
      initialize_attach_def startMonitoring_def Let_def selectInitialQuality_def
      constructor_def config3_def ladder3_def lvl240_def engineAt_def sb_of_def domEmpty_def
      initializeNetworkMetrics_def initializeAdaptiveMetrics_def)

lemma reachable_engineAt_lvl240: "reachable (engineAt lvl240 0 0)"
  using reachable.initialized [OF reachable.constructed initialize_config3] .

theorem userExperience_witness:
  "reachable (step (engineAt lvl240 0 0) (BufferTick domEmpty))
   \<and> bufferHealth (getMetrics (step (engineAt lvl240 0 0) (BufferTick domEmpty))) = 0
   \<and> userExperience (getMetrics (step (engineAt lvl240 0 0) (BufferTick domEmpty))) = Good"
proof -
  have r: "reachable (step (engineAt lvl240 0 0) (BufferTick domEmpty))"
    by (rule reachable.stepped [OF reachable_engineAt_lvl240])
  have "bufferHealth (getMetrics (step (engineAt lvl240 0 0) (BufferTick domEmpty))) = 0"
    by (simp add: getMetrics_def monitorBufferHealth_def engineAt_def constructor_def domEmpty_def)
  with r userExperience_is_constant [OF r] show ?thesis by simp
qed

text \<open>
  The claim as stated fails already on a new engine, whose health and stability of 100
  would make the class excellent, and after a buffer tick on an empty source buffer, whose
  health of 0 would make it poor.
\<close>

theorem userExperience_counterexample:
  "userExperience (getMetrics (constructor config3))
     \<noteq> spec_userExperienceClass (bufferHealth (getMetrics (constructor config3)))
          (networkStability (getMetrics (constructor config3)))
   \<and> userExperience (getMetrics (step (engineAt lvl240 0 0) (BufferTick domEmpty)))
     \<noteq> spec_userExperienceClass
          (bufferHealth (getMetrics (step (engineAt lvl240 0 0) (BufferTick domEmpty))))
          (networkStability (getMetrics (step (engineAt lvl240 0 0) (BufferTick domEmpty))))"
  by (simp add: getMetrics_def constructor_def initializeAdaptiveMetrics_def
      spec_userExperienceClass_def monitorBufferHealth_def engineAt_def domEmpty_def)

section \<open>An empty quality ladder\<close>

lemma adaptQuality_empty_ladder:
  "qualities (config s) = [] \<Longrightarrow> adaptQuality s d = s"
  by (simp add: adaptQuality_def selectQualityForBitrate_def split: option.splits)

text \<open>
  C9, as the code has it. With an empty quality ladder \<open>selectInitialQuality\<close> finds no
  level, and \<open>initialize\<close>, once the media source has opened, rejects with what
  \<open>setupSourceBuffer\<close> throws for this case: a plain \<open>Error\<close> with the message
  \<open>No suitable quality level found\<close>. Whatever the media source does, \<open>initialize\<close>
  never succeeds, and nothing retries it. The evaluation \<open>adaptQuality\<close> on such an
  engine raises nothing: it returns without a change, and so does a network tick once it
  has read the connection.
\<close>

theorem empty_ladder_fails_initialization:
  assumes "qualities (config s) = []"
  shows "selectInitialQuality s = None
         \<and> setupSourceBuffer (initialize_attach s) d = Inl NoSuitableQualityLevelFound
         \<and> initialize s d SourceOpen = Inl NoSuitableQualityLevelFound
         \<and> (\<forall>ev. isl (initialize s d ev))
         \<and> thrown NoSuitableQualityLevelFound
             = Some (''Error'', ''No suitable quality level found'')
         \<and> adaptQuality s d = s
         \<and> step s (NetworkTick conn d) = updateNetworkMetrics_begin s conn"
proof -
  have sel: "selectInitialQuality s = None"
    using assms by (simp add: selectInitialQuality_def Let_def)
  then have sel': "selectInitialQuality (initialize_attach s) = None"
    by (simp add: selectInitialQuality_def initialize_attach_def Let_def)
  have failed: "setupSourceBuffer (initialize_attach s) d = Inl NoSuitableQualityLevelFound"
    using sel' by (simp add: setupSourceBuffer_def setupSourceBuffer_selected_def initialize_attach_def)
  have init: "initialize s d SourceOpen = Inl NoSuitableQualityLevelFound"
    using failed by (simp add: initialize_def)
  have never: "isl (initialize s d ev)" for ev
    using failed by (cases ev) (simp_all add: initialize_def)
  have quiet: "adaptQuality s d = s"
    using assms by (rule adaptQuality_empty_ladder)
  have "qualities (config (updateNetworkMetrics_begin s conn)) = []"
    using assms by (simp add: updateNetworkMetrics_begin_def split: option.splits)
  then have tick: "step s (NetworkTick conn d) = updateNetworkMetrics_begin s conn"
    by (simp add: adaptQuality_empty_ladder)
  show ?thesis
    using sel failed init never quiet tick by simp
qed

theorem empty_ladder_witness:
  "qualities (config (constructor configEmpty)) = []
   \<and> initialize (constructor configEmpty) dom0 SourceOpen = Inl NoSuitableQualityLevelFound
   \<and> adaptQuality (constructor configEmpty) dom0 = constructor configEmpty"
proof -
  have h: "qualities (config (constructor configEmpty)) = []"
    by (simp add: constructor_def configEmpty_def)
  show ?thesis
    using h empty_ladder_fails_initialization [OF h, of dom0] by simp
qed

text \<open>
  The claim as stated fails on the engine constructed with no quality level: its
  evaluation silently does nothing, and the error its initialization rejects with has the
  class \<open>Error\<close>, not a class \<open>ConfigurationError\<close>, the same class as the error for
  a media source that failed or was never made.
\<close>

theorem empty_ladder_counterexample:
  "qualities (config (constructor configEmpty)) = []
   \<and> adaptQuality (constructor configEmpty) dom0 = constructor configEmpty
   \<and> initialize (constructor configEmpty) dom0 SourceOpen = Inl NoSuitableQualityLevelFound
   \<and> map_option fst (thrown NoSuitableQualityLevelFound) \<noteq> Some ''ConfigurationError''
   \<and> map_option fst (thrown NoSuitableQualityLevelFound) = map_option fst (thrown MediaSourceError)
   \<and> map_option fst (thrown NoSuitableQualityLevelFound)
       = map_option fst (thrown MediaSourceNotInitialized)"
proof -
  have h: "qualities (config (constructor configEmpty)) = []"
    by (simp add: constructor_def configEmpty_def)
  have "selectInitialQuality (initialize_attach (constructor configEmpty)) = None"
    using h by (simp add: selectInitialQuality_def initialize_attach_def Let_def)
  then have "initialize (constructor configEmpty) dom0 SourceOpen = Inl NoSuitableQualityLevelFound"
    by (simp add: initialize_def setupSourceBuffer_def setupSourceBuffer_selected_def
        initialize_attach_def)
  with h adaptQuality_empty_ladder [OF h, of dom0] show ?thesis by simp
qed

section \<open>Loading a segment\<close>

lemma handleBufferError_isBuffering: "isBuffering (handleBufferError s d)"
  by (simp add: handleBufferError_def Let_def switchQuality_frame split: option.splits)

lemma handleBufferError_segmentQueue: "segmentQueue (handleBufferError s d) = segmentQueue s"
  by (simp add: handleBufferError_def Let_def switchQuality_frame split: option.splits)

text \<open>
  C8, as the code has it. When the source buffer is missing or updating as the call starts,
  the fetched segment is pushed onto \<open>segmentQueue\<close> and nothing is appended; a rejected
  \<open>fetch\<close> in this branch rejects the call. Otherwise a rejected \<open>fetch\<close> or an
  exception of \<open>appendBuffer\<close> is caught inside \<open>loadSegment\<close>: the call completes
  normally, with \<open>handleBufferError\<close> run, which sets \<open>isBuffering\<close>, leaves the queue
  alone and leaves the source buffer as it was or replaces it by the empty one of a lower
  level; a segment that arrives is appended and the time recorded.
\<close>

theorem loadSegment_outcomes:
  "(sourceBuffer s = None \<or> updating d \<longrightarrow>
      loadSegment s d (Resolved seg) = Inr (s\<lparr>segmentQueue := segmentQueue s @ [seg]\<rparr>)
      \<and> loadSegment s d Rejected = Inl FetchRejected)
   \<and> (sourceBuffer s \<noteq> None \<and> \<not> updating d \<longrightarrow>
      loadSegment s d Rejected = Inr (handleBufferError s d)
      \<and> (appendBuffer_throws d \<longrightarrow> loadSegment s d (Resolved seg) = Inr (handleBufferError s d))
      \<and> (\<not> appendBuffer_throws d \<longrightarrow>
            loadSegment s d (Resolved seg) = Inr ((appendTo s seg)\<lparr>lastSegmentTime := now d\<rparr>)))
   \<and> isBuffering (handleBufferError s d)
   \<and> segmentQueue (handleBufferError s d) = segmentQueue s
   \<and> (sourceBuffer (handleBufferError s d) = sourceBuffer s
        \<or> (\<exists>q. sourceBuffer (handleBufferError s d) = Some (sb_of q)))"
proof -
  have busy: "loadSegment s d (Resolved seg) = Inr (s\<lparr>segmentQueue := segmentQueue s @ [seg]\<rparr>)
      \<and> loadSegment s d Rejected = Inl FetchRejected"
    if "sourceBuffer s = None \<or> updating d"
    using that by (auto simp: loadSegment_def loadSegment_path_def loadSegment_resume_def)
  have idle: "loadSegment s d Rejected = Inr (handleBufferError s d)
      \<and> (appendBuffer_throws d \<longrightarrow> loadSegment s d (Resolved seg) = Inr (handleBufferError s d))
      \<and> (\<not> appendBuffer_throws d \<longrightarrow>
            loadSegment s d (Resolved seg) = Inr ((appendTo s seg)\<lparr>lastSegmentTime := now d\<rparr>))"
    if "sourceBuffer s \<noteq> None \<and> \<not> updating d"
    using that by (auto simp: loadSegment_def loadSegment_path_def loadSegment_resume_def)
  have buf: "sourceBuffer (handleBufferError s d) = sourceBuffer s
        \<or> (\<exists>q. sourceBuffer (handleBufferError s d) = Some (sb_of q))"
    by (auto simp: handleBufferError_def Let_def switchQuality_def switchQuality_commit_def
        sb_of_def split: option.splits)
  show ?thesis
    using busy idle buf handleBufferError_isBuffering handleBufferError_segmentQueue by blast
qed

theorem loadSegment_witness:
  "(sourceBuffer (engineAt lvl720 0 0) = None \<or> updating domBusy)
   \<and> loadSegment (engineAt lvl720 0 0) domBusy Rejected = Inl FetchRejected
   \<and> sourceBuffer (engineAt lvl720 0 0) \<noteq> None \<and> \<not> updating dom0 \<and> \<not> appendBuffer_throws dom0
   \<and> loadSegment (engineAt lvl720 0 0) dom0 (Resolved [1, 2, 3])
       = Inr ((appendTo (engineAt lvl720 0 0) [1, 2, 3])\<lparr>lastSegmentTime := now dom0\<rparr>)
   \<and> loadSegment (engineAt lvl720 0 0) dom0 Rejected
       = Inr (handleBufferError (engineAt lvl720 0 0) dom0)"
proof -
  have h1: "sourceBuffer (engineAt lvl720 0 0) = None \<or> updating domBusy"
    by (simp add: domBusy_def)
  have h2: "sourceBuffer (engineAt lvl720 0 0) \<noteq> None \<and> \<not> updating dom0"
    by (simp add: engineAt_def constructor_def dom0_def)
  have h3: "\<not> appendBuffer_throws dom0"
    by (simp add: dom0_def)
  show ?thesis
    using h1 h2 h3
      loadSegment_outcomes [of "engineAt lvl720 0 0" domBusy "[1, 2, 3]"]
      loadSegment_outcomes [of "engineAt lvl720 0 0" dom0 "[1, 2, 3]"]
    by blast
qed

text \<open>
  The claim as stated fails on a rejected \<open>fetch\<close> with an idle source buffer: the call
  returns normally, no error reaches the caller, and the engine, which was not buffering and
  played 720p, is left buffering at 240p.
\<close>

theorem loadSegment_counterexample:
  "loadSegment_path (engineAt lvl720 0 0) dom0 = AppendPath
   \<and> \<not> isl (loadSegment (engineAt lvl720 0 0) dom0 Rejected)
   \<and> loadSegment (engineAt lvl720 0 0) dom0 Rejected
       = Inr (handleBufferError (engineAt lvl720 0 0) dom0)
   \<and> \<not> isBuffering (engineAt lvl720 0 0)
   \<and> isBuffering (handleBufferError (engineAt lvl720 0 0) dom0)
   \<and> currentQuality_lvl (handleBufferError (engineAt lvl720 0 0) dom0) = Some lvl240"
  by (simp add: loadSegment_def loadSegment_path_def loadSegment_resume_def
      handleBufferError_def Let_def switchQuality_def switchQuality_commit_def
      engineAt_def constructor_def dom0_def config3_def ladder3_def lvl240_def lvl720_def
      lvl1080_def)

section \<open>The segment queue\<close>

lemma switchQuality_queue:
  "switchQuality (s\<lparr>segmentQueue := q\<rparr>) d l = (switchQuality s d l)\<lparr>segmentQueue := q\<rparr>"
  by (simp add: switchQuality_def switchQuality_commit_def)

lemma adaptQuality_queue:
  "adaptQuality (s\<lparr>segmentQueue := q\<rparr>) d = (adaptQuality s d)\<lparr>segmentQueue := q\<rparr>"
  by (simp add: adaptQuality_def switchQuality_queue split: option.splits)

lemma updateNetworkMetrics_begin_queue:
  "updateNetworkMetrics_begin (s\<lparr>segmentQueue := q\<rparr>) conn
     = (updateNetworkMetrics_begin s conn)\<lparr>segmentQueue := q\<rparr>"
  by (simp add: updateNetworkMetrics_begin_def split: option.splits)

lemma measureThroughput_queue:
  "measureThroughput (s\<lparr>segmentQueue := q\<rparr>) p
     = map_sum (\<lambda>e. e) (\<lambda>s'. s'\<lparr>segmentQueue := q\<rparr>) (measureThroughput s p)"
  by (simp add: measureThroughput_def measureThroughput_try_def Let_def split: probe.splits)

lemma calculateNetworkStability_queue:
  "calculateNetworkStability (s\<lparr>segmentQueue := q\<rparr>)
     = (calculateNetworkStability s)\<lparr>segmentQueue := q\<rparr>"
  by (simp add: calculateNetworkStability_def Let_def)

lemma preloadContent_begin_queue:
  "preloadContent_begin (s\<lparr>segmentQueue := q\<rparr>) = preloadContent_begin s"
  by (simp add: preloadContent_begin_def)

lemma handleRebufferingRisk_queue:
  "fst (handleRebufferingRisk (s\<lparr>segmentQueue := q\<rparr>) d)
     = (fst (handleRebufferingRisk s d))\<lparr>segmentQueue := q\<rparr>"
  by (simp add: handleRebufferingRisk_def Let_def switchQuality_queue)

lemma monitorBufferHealth_queue:
  "fst (monitorBufferHealth (s\<lparr>segmentQueue := q\<rparr>) d)
     = (fst (monitorBufferHealth s d))\<lparr>segmentQueue := q\<rparr>"
proof -
  have swap: "s\<lparr>segmentQueue := q, adaptiveMetrics := m\<rparr> = s\<lparr>adaptiveMetrics := m, segmentQueue := q\<rparr>"
    for m by simp
  show ?thesis
    by (simp add: monitorBufferHealth_def Let_def swap handleRebufferingRisk_queue
        del: engine.update_convs)
qed

lemma appendTo_queue:
  "appendTo (s\<lparr>segmentQueue := q\<rparr>) seg = (appendTo s seg)\<lparr>segmentQueue := q\<rparr>"
  by (simp add: appendTo_def split: option.splits)

lemma preloadContent_resume_queue:
  "preloadContent_resume (s\<lparr>segmentQueue := q\<rparr>) d segs
     = (preloadContent_resume s d segs)\<lparr>segmentQueue := q\<rparr>"
  by (simp add: preloadContent_resume_def appendTo_queue split: list.splits)

lemma handleBufferUpdate_queue:
  "handleBufferUpdate (s\<lparr>segmentQueue := q\<rparr>) t = (handleBufferUpdate s t)\<lparr>segmentQueue := q\<rparr>"
  by (simp add: handleBufferUpdate_def)

lemma handleBufferError_queue:
  "handleBufferError (s\<lparr>segmentQueue := q\<rparr>) d = (handleBufferError s d)\<lparr>segmentQueue := q\<rparr>"
proof -
  have swap: "s\<lparr>segmentQueue := q, isBuffering := True\<rparr> = s\<lparr>isBuffering := True, segmentQueue := q\<rparr>"
    by simp
  show ?thesis
    by (simp add: handleBufferError_def Let_def swap switchQuality_queue
        split: option.splits del: engine.update_convs)
qed

lemma updateCooldown_queue:
  "updateCooldown (s\<lparr>segmentQueue := q\<rparr>) = (updateCooldown s)\<lparr>segmentQueue := q\<rparr>"
  by (simp add: updateCooldown_def)

lemma loadSegment_resume_queue:
  "(case loadSegment_resume path (s\<lparr>segmentQueue := q\<rparr>) r d of Inl e \<Rightarrow> s\<lparr>segmentQueue := q\<rparr> | Inr s' \<Rightarrow> s')
     = (case loadSegment_resume path s r d of Inl e \<Rightarrow> s | Inr s' \<Rightarrow> s')
         \<lparr>segmentQueue := q @ queued (LoadSegmentSettled path r d)\<rparr>"
proof -
  have swap: "(appendTo s seg)\<lparr>segmentQueue := q, lastSegmentTime := t\<rparr>
                = (appendTo s seg)\<lparr>lastSegmentTime := t, segmentQueue := q\<rparr>" for seg t
    by simp
  show ?thesis
    by (cases path; cases r)
      (simp_all add: loadSegment_resume_def handleBufferError_queue appendTo_queue swap
        del: engine.update_convs)
qed

lemma loadSegment_resume_segmentQueue:
  "segmentQueue (case loadSegment_resume path s r d of Inl e \<Rightarrow> s | Inr s' \<Rightarrow> s')
     = segmentQueue s @ queued (LoadSegmentSettled path r d)"
proof -
  have app: "segmentQueue (appendTo s seg) = segmentQueue s" for seg
    by (simp add: appendTo_def split: option.splits)
  show ?thesis
    by (cases path; cases r)
      (simp_all add: loadSegment_resume_def handleBufferError_segmentQueue app)
qed

lemma step_queue:
  "step (s\<lparr>segmentQueue := q\<rparr>) e = (step s e)\<lparr>segmentQueue := q @ queued e\<rparr>"
proof (cases e)
  case (NetworkTick conn d)
  then show ?thesis by (simp add: updateNetworkMetrics_begin_queue adaptQuality_queue)
next
  case (ProbeSettled p)
  then show ?thesis
    by (simp add: measureThroughput_queue calculateNetworkStability_queue
        measureThroughput_total split: sum.splits)
next
  case (BufferTick d)
  then show ?thesis by (simp add: monitorBufferHealth_queue)
next
  case (PreloadSettled segs d)
  then show ?thesis by (simp add: preloadContent_resume_queue)
next
  case (UpdateEnd t)
  then show ?thesis by (simp add: handleBufferUpdate_queue)
next
  case (SourceBufferError d)
  then show ?thesis by (simp add: handleBufferError_queue)
next
  case (LoadSegmentSettled path r d)
  then show ?thesis using loadSegment_resume_queue [where path = path and s = s and q = q and r = r and d = d] by simp
next
  case UpdateCooldown
  then show ?thesis by (simp add: updateCooldown_queue)
next
  case Destroy
  then show ?thesis by (simp add: destroy_def)
qed

lemma step_segmentQueue: "segmentQueue (step s e) = segmentQueue s @ queued e"
proof -
  have "segmentQueue (step (s\<lparr>segmentQueue := segmentQueue s\<rparr>) e) = segmentQueue s @ queued e"
    unfolding step_queue by simp
  then show ?thesis by simp
qed

lemma run_queue:
  "run (s\<lparr>segmentQueue := q\<rparr>) evs = (run s evs)\<lparr>segmentQueue := q @ concat (map queued evs)\<rparr>"
proof (induction evs arbitrary: s q)
  case Nil
  show ?case by (simp add: run_def)
next
  case (Cons e evs)
  have "run (s\<lparr>segmentQueue := q\<rparr>) (e # evs) = run ((step s e)\<lparr>segmentQueue := q @ queued e\<rparr>) evs"
    by (simp add: run_def step_queue)
  also have "\<dots> = (run (step s e) evs)\<lparr>segmentQueue := (q @ queued e) @ concat (map queued evs)\<rparr>"
    by (rule Cons.IH)
  finally show ?case by (simp add: run_def)
qed

lemma run_segmentQueue: "segmentQueue (run s evs) = segmentQueue s @ concat (map queued evs)"
proof (induction evs arbitrary: s)
  case Nil
  show ?case by (simp add: run_def)
next
  case (Cons e evs)
  have "segmentQueue (run s (e # evs)) = segmentQueue (run (step s e) evs)"
    by (simp add: run_def)
  then show ?case by (simp add: Cons.IH step_segmentQueue)
qed

text \<open>
  C10. A \<open>loadSegment\<close> call takes the busy branch exactly when the source buffer is
  missing or updating, and then pushes its segment onto \<open>segmentQueue\<close>. Over every
  sequence of callbacks the queue only grows, by the segments so pushed, and nothing reads
  it: an engine started with any other queue goes through the same states, queue apart, and
  in particular appends the same segments to its source buffer. A queued segment is
  therefore never removed and never appended.
\<close>

theorem segmentQueue_is_never_read:
  "(loadSegment_path s d = QueuePath) = (sourceBuffer s = None \<or> updating d)
   \<and> loadSegment_resume QueuePath s (Resolved seg) d
       = Inr (s\<lparr>segmentQueue := segmentQueue s @ [seg]\<rparr>)
   \<and> segmentQueue (run s evs) = segmentQueue s @ concat (map queued evs)
   \<and> run (s\<lparr>segmentQueue := q\<rparr>) evs
       = (run s evs)\<lparr>segmentQueue := q @ concat (map queued evs)\<rparr>
   \<and> sourceBuffer (run (s\<lparr>segmentQueue := q\<rparr>) evs) = sourceBuffer (run s evs)"
proof -
  have path: "(loadSegment_path s d = QueuePath) = (sourceBuffer s = None \<or> updating d)"
    by (simp add: loadSegment_path_def)
  have push: "loadSegment_resume QueuePath s (Resolved seg) d
       = Inr (s\<lparr>segmentQueue := segmentQueue s @ [seg]\<rparr>)"
    by (simp add: loadSegment_resume_def)
  have buf: "sourceBuffer (run (s\<lparr>segmentQueue := q\<rparr>) evs) = sourceBuffer (run s evs)"
    by (simp add: run_queue)
  show ?thesis
    using path push buf run_segmentQueue run_queue by simp
qed

theorem segmentQueue_witness:
  "segmentQueue (run (engineAt lvl720 0 0)
      [LoadSegmentSettled QueuePath (Resolved [1, 2, 3]) domBusy, UpdateEnd 0,
       LoadSegmentSettled AppendPath (Resolved [4, 5]) dom0, BufferTick dom0])
     = [[1, 2, 3]]
   \<and> sourceBuffer (run ((engineAt lvl720 0 0)\<lparr>segmentQueue := [[9]]\<rparr>) [UpdateEnd 0, BufferTick dom0])
     = sourceBuffer (run (engineAt lvl720 0 0) [UpdateEnd 0, BufferTick dom0])"
  using segmentQueue_is_never_read
    [where s = "engineAt lvl720 0 0" and d = domBusy and seg = "[1, 2, 3]" and q = "[[9]]"
      and evs = "[LoadSegmentSettled QueuePath (Resolved [1, 2, 3]) domBusy, UpdateEnd 0,
        LoadSegmentSettled AppendPath (Resolved [4, 5]) dom0, BufferTick dom0]"]
    segmentQueue_is_never_read
    [where s = "engineAt lvl720 0 0" and d = domBusy and seg = "[1, 2, 3]" and q = "[[9]]"
      and evs = "[UpdateEnd 0, BufferTick dom0]"]
  by (simp add: engineAt_def constructor_def)

section \<open>The counter of rebuffering events\<close>

lemma monitorBufferHealth_counter:
  "rebufferingEvents (adaptiveMetrics (fst (monitorBufferHealth s d))) = rebufferingEvents (adaptiveMetrics s)"
  "isBuffering (fst (monitorBufferHealth s d)) = isBuffering s"
  by (simp_all add: monitorBufferHealth_def Let_def handleRebufferingRisk_frame)

lemma bufferTicks_counter:
  "rebufferingEvents (adaptiveMetrics (run s (map BufferTick ds))) = rebufferingEvents (adaptiveMetrics s)
   \<and> isBuffering (run s (map BufferTick ds)) = isBuffering s"
proof (induction ds arbitrary: s)
  case Nil
  show ?case by (simp add: run_def)
next
  case (Cons d ds)
  have "run s (map BufferTick (d # ds)) = run (fst (monitorBufferHealth s d)) (map BufferTick ds)"
    by (simp add: run_def)
  then show ?case by (simp add: Cons.IH monitorBufferHealth_counter)
qed

lemma adaptQuality_counter:
  "rebufferingEvents (adaptiveMetrics (adaptQuality s d)) = rebufferingEvents (adaptiveMetrics s)"
  "isBuffering (adaptQuality s d) = isBuffering s"
  by (simp_all add: adaptQuality_def switchQuality_frame split: option.splits)

lemma calculateNetworkStability_counter:
  "rebufferingEvents (adaptiveMetrics (calculateNetworkStability s)) = rebufferingEvents (adaptiveMetrics s)"
  "isBuffering (calculateNetworkStability s) = isBuffering s"
  by (simp_all add: calculateNetworkStability_def Let_def)

lemma measureThroughput_isBuffering:
  "measureThroughput s p = Inr s' \<Longrightarrow> isBuffering s' = isBuffering s"
  by (auto simp: measureThroughput_def measureThroughput_try_def Let_def
      split: probe.splits if_splits)

lemma handleBufferError_counter:
  "rebufferingEvents (adaptiveMetrics (handleBufferError s d)) = rebufferingEvents (adaptiveMetrics s)"
  by (simp add: handleBufferError_def Let_def switchQuality_frame split: option.splits)

lemma loadSegment_resume_counter:
  "loadSegment_resume path s r d = Inr s' \<Longrightarrow>
   rebufferingEvents (adaptiveMetrics s') = rebufferingEvents (adaptiveMetrics s)"
  by (auto simp: loadSegment_resume_def handleBufferError_counter appendTo_adaptiveMetrics
      split: loadPath.splits fetched.splits if_splits)

lemma step_counter:
  "rebufferingEvents (adaptiveMetrics (step s e)) = rebufferingEvents (adaptiveMetrics s) + counted s e"
proof (cases e)
  case (NetworkTick conn d)
  then show ?thesis
    by (simp add: adaptQuality_counter updateNetworkMetrics_begin_adaptiveMetrics)
next
  case (ProbeSettled p)
  then show ?thesis
    by (auto simp: calculateNetworkStability_counter
        dest: measureThroughput_adaptiveMetrics split: sum.splits)
next
  case (BufferTick d)
  then show ?thesis by (simp add: monitorBufferHealth_counter)
next
  case (PreloadSettled segs d)
  then show ?thesis by (simp add: preloadContent_resume_adaptiveMetrics)
next
  case (UpdateEnd t)
  then show ?thesis by (simp add: handleBufferUpdate_def)
next
  case (SourceBufferError d)
  then show ?thesis by (simp add: handleBufferError_counter)
next
  case (LoadSegmentSettled path r d)
  then show ?thesis by (auto dest: loadSegment_resume_counter split: sum.splits)
next
  case UpdateCooldown
  then show ?thesis by (simp add: updateCooldown_def)
next
  case Destroy
  then show ?thesis by (simp add: destroy_def)
qed

lemma step_isBuffering:
  "isBuffering (step s e) \<Longrightarrow>
   isBuffering s \<or> (\<exists>d. e = SourceBufferError d) \<or> (\<exists>r d. e = LoadSegmentSettled AppendPath r d)"
proof (cases e)
  case (NetworkTick conn d)
  moreover have "isBuffering (updateNetworkMetrics_begin s conn) = isBuffering s"
    by (simp add: updateNetworkMetrics_begin_def split: option.splits)
  moreover assume "isBuffering (step s e)"
  ultimately show ?thesis by (simp add: adaptQuality_counter)
next
  case (ProbeSettled p)
  moreover assume "isBuffering (step s e)"
  ultimately show ?thesis
    by (auto simp: calculateNetworkStability_counter dest: measureThroughput_isBuffering
        split: sum.splits)
next
  case (BufferTick d)
  moreover assume "isBuffering (step s e)"
  ultimately show ?thesis by (simp add: monitorBufferHealth_counter)
next
  case (PreloadSettled segs d)
  moreover assume "isBuffering (step s e)"
  ultimately show ?thesis
    by (auto simp: preloadContent_resume_def appendTo_def split: list.splits option.splits if_splits)
next
  case (UpdateEnd t)
  moreover assume "isBuffering (step s e)"
  ultimately show ?thesis by (simp add: handleBufferUpdate_def split: if_splits)
next
  case (SourceBufferError d)
  then show ?thesis by simp
next
  case (LoadSegmentSettled path r d)
  moreover assume "isBuffering (step s e)"
  ultimately show ?thesis
    by (cases path; cases r) (simp_all add: loadSegment_resume_def)
next
  case UpdateCooldown
  moreover assume "isBuffering (step s e)"
  ultimately show ?thesis by (simp add: updateCooldown_def split: if_splits)
next
  case Destroy
  moreover assume "isBuffering (step s e)"
  ultimately show ?thesis by (simp add: destroy_def)
qed

text \<open>
  C4, as the code has it. Buffer ticks never change \<open>rebufferingEvents\<close> or
  \<open>isBuffering\<close>, however many of them find the buffer ahead below the threshold. The
  counter is incremented by one by each \<open>updateend\<close> of the source buffer that finds
  \<open>isBuffering\<close> set, and by nothing else; that \<open>updateend\<close> clears the flag, which
  only an error of the source buffer or a failed segment load sets. No threshold times 1.5
  is involved.
\<close>

theorem rebuffering_counter_ignores_buffer_ticks:
  "rebufferingEvents (getMetrics (run s (map BufferTick ds))) = rebufferingEvents (getMetrics s)
   \<and> isBuffering (run s (map BufferTick ds)) = isBuffering s
   \<and> rebufferingEvents (getMetrics (step s e)) = rebufferingEvents (getMetrics s) + counted s e
   \<and> \<not> isBuffering (step s (UpdateEnd time))
   \<and> (isBuffering (step s e) \<longrightarrow>
        isBuffering s \<or> (\<exists>d. e = SourceBufferError d)
        \<or> (\<exists>r d. e = LoadSegmentSettled AppendPath r d))"
  using bufferTicks_counter [of s ds] step_counter [of s e] step_isBuffering [of s e]
  by (simp add: getMetrics_def handleBufferUpdate_def)

theorem rebuffering_counter_witness:
  "isBuffering (step (engineAt lvl720 0 0) (SourceBufferError dom0))
   \<and> rebufferingEvents (getMetrics
        (step (step (engineAt lvl720 0 0) (SourceBufferError dom0)) (UpdateEnd 5))) = 1
   \<and> rebufferingEvents (getMetrics
        (run (engineAt lvl720 0 0) (map BufferTick [dom0, dom0, dom0]))) = 0"
proof -
  have b: "isBuffering (step (engineAt lvl720 0 0) (SourceBufferError dom0))"
    by (simp add: handleBufferError_isBuffering)
  have z: "rebufferingEvents (getMetrics (engineAt lvl720 0 0)) = 0"
    by (simp add: getMetrics_def engineAt_def initializeAdaptiveMetrics_def)
  have z': "rebufferingEvents (getMetrics (step (engineAt lvl720 0 0) (SourceBufferError dom0))) = 0"
    using rebuffering_counter_ignores_buffer_ticks
      [where s = "engineAt lvl720 0 0" and e = "SourceBufferError dom0"] z
    by simp
  show ?thesis
    using b z z'
      rebuffering_counter_ignores_buffer_ticks
        [where s = "step (engineAt lvl720 0 0) (SourceBufferError dom0)" and e = "UpdateEnd 5"]
      rebuffering_counter_ignores_buffer_ticks
        [where s = "engineAt lvl720 0 0" and ds = "[dom0, dom0, dom0]"]
    by simp
qed

text \<open>
  The claim as stated fails on three buffer ticks that all find one second buffered ahead
  under a threshold of two: the counter is not incremented once, it is not incremented.
\<close>

theorem rebuffering_counter_counterexample:
  "bufferAhead dom0 < rebufferThreshold (config (engineAt lvl1080 0 0))
   \<and> rebufferingEvents (getMetrics (run (engineAt lvl1080 0 0)
        [BufferTick dom0, BufferTick dom0, BufferTick dom0]))
      \<noteq> rebufferingEvents (getMetrics (engineAt lvl1080 0 0)) + 1"
proof -
  have "rebufferingEvents (getMetrics (run (engineAt lvl1080 0 0) (map BufferTick [dom0, dom0, dom0])))
          = rebufferingEvents (getMetrics (engineAt lvl1080 0 0))"
    using bufferTicks_counter [of "engineAt lvl1080 0 0" "[dom0, dom0, dom0]"]
    by (simp add: getMetrics_def)
  then show ?thesis
    by (simp add: bufferAhead_def dom0_def engineAt_def constructor_def config3_def)
qed

section \<open>The cooldown\<close>

lemma sameOrSwitched_refl: "sameOrSwitched s s"
  by (simp add: sameOrSwitched_def)

lemma sameOrSwitched_eq:
  "qualitySwitches (adaptiveMetrics s') = qualitySwitches (adaptiveMetrics s) \<Longrightarrow>
   qualitySwitchCooldown s' = qualitySwitchCooldown s \<Longrightarrow> sameOrSwitched s s'"
  by (simp add: sameOrSwitched_def)

lemma sameOrSwitched_cong:
  "qualitySwitches (adaptiveMetrics s0) = qualitySwitches (adaptiveMetrics s) \<Longrightarrow>
   qualitySwitchCooldown s0 = qualitySwitchCooldown s \<Longrightarrow>
   sameOrSwitched s0 s' \<Longrightarrow> sameOrSwitched s s'"
  by (auto simp: sameOrSwitched_def split: if_splits)

lemma switchQuality_sameOrSwitched: "sameOrSwitched s (switchQuality s d q)"
  by (simp add: sameOrSwitched_def switchQuality_def switchQuality_commit_def)

lemma adaptQuality_sameOrSwitched: "sameOrSwitched s (adaptQuality s d)"
  by (simp add: adaptQuality_def switchQuality_sameOrSwitched sameOrSwitched_refl
      split: option.splits)

lemma handleRebufferingRisk_sameOrSwitched: "sameOrSwitched s (fst (handleRebufferingRisk s d))"
  by (simp add: handleRebufferingRisk_def Let_def switchQuality_sameOrSwitched sameOrSwitched_refl)

lemma monitorBufferHealth_sameOrSwitched: "sameOrSwitched s (fst (monitorBufferHealth s d))"
proof -
  have "sameOrSwitched s (fst (handleRebufferingRisk (s\<lparr>adaptiveMetrics := (adaptiveMetrics s)\<lparr>bufferHealth := h\<rparr>\<rparr>) d))"
    for h
    by (rule sameOrSwitched_cong [OF _ _ handleRebufferingRisk_sameOrSwitched]) simp_all
  then show ?thesis
    by (simp add: monitorBufferHealth_def Let_def sameOrSwitched_refl sameOrSwitched_eq)
qed

lemma handleBufferError_sameOrSwitched: "sameOrSwitched s (handleBufferError s d)"
proof -
  have "sameOrSwitched s (switchQuality (s\<lparr>isBuffering := True\<rparr>) d q)" for q
    by (rule sameOrSwitched_cong [OF _ _ switchQuality_sameOrSwitched]) simp_all
  then show ?thesis
    by (simp add: handleBufferError_def Let_def sameOrSwitched_eq split: option.splits)
qed

lemma step_sameOrSwitched: "e \<noteq> UpdateCooldown \<Longrightarrow> sameOrSwitched s (step s e)"
proof (cases e)
  case (NetworkTick conn d)
  have "sameOrSwitched s (adaptQuality (updateNetworkMetrics_begin s conn) d)"
    by (rule sameOrSwitched_cong [OF _ _ adaptQuality_sameOrSwitched])
      (simp_all add: updateNetworkMetrics_begin_def split: option.splits)
  with NetworkTick show ?thesis by simp
next
  case (ProbeSettled p)
  have "sameOrSwitched s (calculateNetworkStability s')" if "measureThroughput s p = Inr s'" for s'
  proof -
    have "qualitySwitchCooldown s' = qualitySwitchCooldown s"
      using that
      by (auto simp: measureThroughput_def measureThroughput_try_def Let_def
          split: probe.splits if_splits)
    then show ?thesis
      using measureThroughput_adaptiveMetrics [OF that]
      by (simp add: sameOrSwitched_def calculateNetworkStability_def Let_def)
  qed
  with ProbeSettled show ?thesis by (simp add: sameOrSwitched_refl split: sum.splits)
next
  case (BufferTick d)
  then show ?thesis by (simp add: monitorBufferHealth_sameOrSwitched)
next
  case (PreloadSettled segs d)
  then show ?thesis
    by (simp add: sameOrSwitched_def preloadContent_resume_def appendTo_def
        split: list.splits option.splits)
next
  case (UpdateEnd t)
  then show ?thesis by (simp add: sameOrSwitched_def handleBufferUpdate_def)
next
  case (SourceBufferError d)
  then show ?thesis by (simp add: handleBufferError_sameOrSwitched)
next
  case (LoadSegmentSettled path r d)
  have "sameOrSwitched s ((appendTo s seg)\<lparr>lastSegmentTime := t\<rparr>)" for seg t
    by (simp add: sameOrSwitched_def appendTo_def split: option.splits)
  then have "sameOrSwitched s (case loadSegment_resume path s r d of Inl e \<Rightarrow> s | Inr s' \<Rightarrow> s')"
    by (cases path; cases r)
      (simp_all add: loadSegment_resume_def sameOrSwitched_def [of s "s\<lparr>segmentQueue := _\<rparr>"]
        sameOrSwitched_refl handleBufferError_sameOrSwitched)
  with LoadSegmentSettled show ?thesis by simp
next
  case UpdateCooldown
  moreover assume "e \<noteq> UpdateCooldown"
  ultimately show ?thesis by simp
next
  case Destroy
  then show ?thesis by (simp add: destroy_def sameOrSwitched_refl)
qed

lemma step_cooldown_levels:
  assumes "qualitySwitchCooldown s \<in> {0, 1000, 2000}"
  shows "qualitySwitchCooldown (step s e) \<in> {0, 1000, 2000}"
proof (cases "e = UpdateCooldown")
  case True
  with assms show ?thesis by (auto simp: updateCooldown_def)
next
  case False
  from step_sameOrSwitched [OF False, of s] assms show ?thesis
    by (auto simp: sameOrSwitched_def split: if_splits)
qed

lemma initialize_cooldown:
  "initialize s d ev = Inr s' \<Longrightarrow> qualitySwitchCooldown s' = qualitySwitchCooldown s"
  by (auto simp: initialize_def setupSourceBuffer_def setupSourceBuffer_selected_def
      initialize_attach_def startMonitoring_def Let_def
      split: mediaSourceEvent.splits sum.splits option.splits if_splits)

lemma reachable_cooldown_levels:
  "reachable s \<Longrightarrow> qualitySwitchCooldown s \<in> {0, 1000, 2000}"
proof (induction rule: reachable.induct)
  case (constructed cfg)
  show ?case by (simp add: constructor_def)
next
  case (attached s)
  then show ?case by (simp add: initialize_attach_def)
next
  case (selected s)
  then show ?case by (simp add: setupSourceBuffer_selected_def)
next
  case (initialized s d ev s')
  then show ?case using initialize_cooldown [of s d ev s'] by simp
next
  case (stepped s e)
  from stepped.IH show ?case by (rule step_cooldown_levels)
qed

lemma step_cooldown_lower:
  assumes "qualitySwitchCooldown s \<in> {0, 1000, 2000}"
  shows "qualitySwitchCooldown s - (if e = UpdateCooldown then 1000 else 0)
           \<le> qualitySwitchCooldown (step s e)"
proof (cases "e = UpdateCooldown")
  case True
  with assms show ?thesis by (auto simp: updateCooldown_def)
next
  case False
  from step_sameOrSwitched [OF False, of s] assms False show ?thesis
    by (auto simp: sameOrSwitched_def split: if_splits)
qed

lemma run_cooldown_lower:
  "qualitySwitchCooldown s \<in> {0, 1000, 2000} \<Longrightarrow>
   qualitySwitchCooldown s - 1000 * real (length (filter (\<lambda>e. e = UpdateCooldown) evs))
     \<le> qualitySwitchCooldown (run s evs)"
proof (induction evs arbitrary: s)
  case Nil
  show ?case by (simp add: run_def)
next
  case (Cons e evs)
  have levels: "qualitySwitchCooldown (step s e) \<in> {0, 1000, 2000}"
    using Cons.prems by (rule step_cooldown_levels)
  have "qualitySwitchCooldown (step s e)
          - 1000 * real (length (filter (\<lambda>e. e = UpdateCooldown) evs))
        \<le> qualitySwitchCooldown (run (step s e) evs)"
    using levels by (rule Cons.IH)
  moreover have "run s (e # evs) = run (step s e) evs"
    by (simp add: run_def)
  ultimately show ?case
    using step_cooldown_lower [OF Cons.prems, of e] by (cases "e = UpdateCooldown") simp_all
qed

lemma networkTick_in_cooldown:
  assumes "0 < qualitySwitchCooldown s"
  shows "adaptQuality s d = s"
    and "qualitySwitches (adaptiveMetrics (step s (NetworkTick conn d))) = qualitySwitches (adaptiveMetrics s)"
    and "currentQuality_lvl (step s (NetworkTick conn d)) = currentQuality_lvl s"
proof -
  show "adaptQuality s d = s"
    using assms by (simp add: adaptQuality_def split: option.splits)
  have cd: "0 < qualitySwitchCooldown (updateNetworkMetrics_begin s conn)"
    using assms by (simp add: updateNetworkMetrics_begin_def split: option.splits)
  have held: "adaptQuality (updateNetworkMetrics_begin s conn) d = updateNetworkMetrics_begin s conn"
    using cd by (simp add: adaptQuality_def split: option.splits)
  show "qualitySwitches (adaptiveMetrics (step s (NetworkTick conn d))) = qualitySwitches (adaptiveMetrics s)"
    by (simp add: held updateNetworkMetrics_begin_adaptiveMetrics)
  show "currentQuality_lvl (step s (NetworkTick conn d)) = currentQuality_lvl s"
    by (simp add: held) (simp add: updateNetworkMetrics_begin_def split: option.splits)
qed

text \<open>
  C2, as the code has it. In every reachable engine: a callback that performs a quality
  switch leaves the cooldown at 2000; the cooldown is 0, 1000 or 2000, and a call of
  \<open>updateCooldown\<close> takes 1000 off it with floor 0; while it is positive
  \<open>adaptQuality\<close> does nothing, so a network tick switches nothing; and after a network
  tick that switched, a network tick that follows fewer than two calls of
  \<open>updateCooldown\<close> switches nothing, whatever other callbacks, forced downgrades among
  them, ran in between. The cooldown is counted in calls of \<open>updateCooldown\<close>, not in
  milliseconds.
\<close>

theorem cooldown_spaces_evaluation_switches:
  assumes "reachable s"
  shows "(qualitySwitches (getMetrics (step s e)) \<noteq> qualitySwitches (getMetrics s)
            \<longrightarrow> qualitySwitchCooldown (step s e) = 2000)
         \<and> qualitySwitchCooldown s \<in> {0, 1000, 2000}
         \<and> qualitySwitchCooldown (step s UpdateCooldown) = max 0 (qualitySwitchCooldown s - 1000)
         \<and> (0 < qualitySwitchCooldown s \<longrightarrow>
              adaptQuality s d = s
              \<and> qualitySwitches (getMetrics (step s (NetworkTick conn d)))
                  = qualitySwitches (getMetrics s)
              \<and> currentQuality_lvl (step s (NetworkTick conn d)) = currentQuality_lvl s)
         \<and> (qualitySwitches (getMetrics (step s (NetworkTick conn d)))
                \<noteq> qualitySwitches (getMetrics s)
              \<and> length (filter (\<lambda>e. e = UpdateCooldown) evs) < 2 \<longrightarrow>
              qualitySwitches (getMetrics
                  (step (run (step s (NetworkTick conn d)) evs) (NetworkTick conn' d')))
                = qualitySwitches (getMetrics (run (step s (NetworkTick conn d)) evs))
              \<and> currentQuality_lvl
                  (step (run (step s (NetworkTick conn d)) evs) (NetworkTick conn' d'))
                = currentQuality_lvl (run (step s (NetworkTick conn d)) evs))"
proof -
  have levels: "qualitySwitchCooldown s \<in> {0, 1000, 2000}"
    using assms by (rule reachable_cooldown_levels)
  have sets: "qualitySwitchCooldown (step s e) = 2000"
    if "qualitySwitches (getMetrics (step s e)) \<noteq> qualitySwitches (getMetrics s)" for e
  proof (cases "e = UpdateCooldown")
    case True
    with that show ?thesis by (simp add: getMetrics_def updateCooldown_def split: if_splits)
  next
    case False
    from step_sameOrSwitched [OF False, of s] that show ?thesis
      by (simp add: sameOrSwitched_def getMetrics_def split: if_splits)
  qed
  have floor: "qualitySwitchCooldown (step s UpdateCooldown) = max 0 (qualitySwitchCooldown s - 1000)"
    using levels by (auto simp: updateCooldown_def)
  have held: "adaptQuality s d = s
              \<and> qualitySwitches (getMetrics (step s (NetworkTick conn d)))
                  = qualitySwitches (getMetrics s)
              \<and> currentQuality_lvl (step s (NetworkTick conn d)) = currentQuality_lvl s"
    if "0 < qualitySwitchCooldown s"
    using networkTick_in_cooldown [OF that] by (simp add: getMetrics_def)
  have spaced: "qualitySwitches (getMetrics
                  (step (run (step s (NetworkTick conn d)) evs) (NetworkTick conn' d')))
                = qualitySwitches (getMetrics (run (step s (NetworkTick conn d)) evs))
              \<and> currentQuality_lvl
                  (step (run (step s (NetworkTick conn d)) evs) (NetworkTick conn' d'))
                = currentQuality_lvl (run (step s (NetworkTick conn d)) evs)"
    if switched: "qualitySwitches (getMetrics (step s (NetworkTick conn d)))
                    \<noteq> qualitySwitches (getMetrics s)"
      and few: "length (filter (\<lambda>e. e = UpdateCooldown) evs) < 2"
  proof -
    let ?s1 = "step s (NetworkTick conn d)"
    have c1: "qualitySwitchCooldown ?s1 = 2000"
      using switched by (rule sets)
    then have l1: "qualitySwitchCooldown ?s1 \<in> {0, 1000, 2000}" by simp
    have "real (length (filter (\<lambda>e. e = UpdateCooldown) evs)) \<le> 1"
      using few by simp
    with run_cooldown_lower [OF l1, of evs] c1
    have "0 < qualitySwitchCooldown (run ?s1 evs)" by simp
    from networkTick_in_cooldown(2,3) [OF this] show ?thesis
      by (simp add: getMetrics_def)
  qed
  show ?thesis
    using levels sets floor held spaced by blast
qed

lemma engineAt_probed:
  "step (step (engineAt lvl240 0 0) (NetworkTick (Some conn10) dom0))
     (ProbeSettled (ProbeResponse True None 1))
   = engineAt lvl240 10000000 8000000"
  by (simp add: adaptQuality_def updateNetworkMetrics_begin_def measureThroughput_def
      measureThroughput_try_def calculateNetworkStability_def Let_def
      selectQualityForBitrate_def targetBitrate_of_def dom0_def
      engineAt_def constructor_def conn10_def config3_def ladder3_def lvl240_def
      initializeNetworkMetrics_def initializeAdaptiveMetrics_def)

lemma reachable_engineAt_probed: "reachable (engineAt lvl240 10000000 8000000)"
  using reachable.stepped [OF reachable.stepped [OF reachable_engineAt_lvl240]]
  unfolding engineAt_probed [symmetric] .

lemma engineSwitched_eq:
  "engineSwitched = switchQuality_commit (engineAt lvl240 10000000 8000000) lvl1080"
  by (simp add: engineSwitched_def adaptQuality_def updateNetworkMetrics_begin_def
      selectQualityForBitrate_def targetBitrate_of_def switchQuality_def
      engineAt_def constructor_def config3_def ladder3_def lvl240_def lvl720_def lvl1080_def
      dom0_def)

lemma reachable_engineSwitched: "reachable engineSwitched"
  unfolding engineSwitched_def by (rule reachable.stepped [OF reachable_engineAt_probed])

theorem cooldown_witness:
  "reachable (engineAt lvl240 10000000 8000000)
   \<and> qualitySwitches (getMetrics (step (engineAt lvl240 10000000 8000000) (NetworkTick None dom0)))
       \<noteq> qualitySwitches (getMetrics (engineAt lvl240 10000000 8000000))
   \<and> qualitySwitchCooldown (step (engineAt lvl240 10000000 8000000) (NetworkTick None dom0)) = 2000
   \<and> length (filter (\<lambda>e. e = UpdateCooldown) [UpdateCooldown, BufferTick domEmpty]) < 2
   \<and> currentQuality_lvl
        (step (run (step (engineAt lvl240 10000000 8000000) (NetworkTick None dom0))
                 [UpdateCooldown, BufferTick domEmpty]) (NetworkTick (Some conn1) dom0))
       = currentQuality_lvl
        (run (step (engineAt lvl240 10000000 8000000) (NetworkTick None dom0))
                 [UpdateCooldown, BufferTick domEmpty])
   \<and> currentQuality_lvl
        (run (step (engineAt lvl240 10000000 8000000) (NetworkTick None dom0))
                 [UpdateCooldown, BufferTick domEmpty]) = Some lvl1080
   \<and> currentQuality_lvl
        (step (run (step (engineAt lvl240 10000000 8000000) (NetworkTick None dom0))
                 [UpdateCooldown, BufferTick domEmpty, UpdateCooldown])
           (NetworkTick (Some conn1) dom0)) = Some lvl240"
proof -
  let ?s = "engineAt lvl240 10000000 8000000"
  have sw: "qualitySwitches (getMetrics (step ?s (NetworkTick None dom0)))
              \<noteq> qualitySwitches (getMetrics ?s)"
    using engineSwitched_eq
    by (simp add: engineSwitched_def getMetrics_def switchQuality_commit_def)
  have few: "length (filter (\<lambda>e. e = UpdateCooldown) [UpdateCooldown, BufferTick domEmpty]) < 2"
    by simp
  have s1: "step ?s (NetworkTick None dom0) = switchQuality_commit ?s lvl1080"
    using engineSwitched_eq by (simp add: engineSwitched_def)
  have held: "currentQuality_lvl (run (step ?s (NetworkTick None dom0))
                 [UpdateCooldown, BufferTick domEmpty]) = Some lvl1080"
    unfolding s1
    by (simp add: run_def switchQuality_commit_def updateCooldown_def monitorBufferHealth_def
        engineAt_def constructor_def domEmpty_def)
  have later: "currentQuality_lvl
        (step (run (step ?s (NetworkTick None dom0))
                 [UpdateCooldown, BufferTick domEmpty, UpdateCooldown])
           (NetworkTick (Some conn1) dom0)) = Some lvl240"
    unfolding s1
    by (simp add: run_def switchQuality_commit_def updateCooldown_def monitorBufferHealth_def
        engineAt_def constructor_def domEmpty_def dom0_def conn1_def config3_def ladder3_def
        lvl240_def lvl720_def lvl1080_def adaptQuality_def updateNetworkMetrics_begin_def
        selectQualityForBitrate_def targetBitrate_of_def switchQuality_def)
  show ?thesis
    using sw few held later reachable_engineAt_probed
      cooldown_spaces_evaluation_switches [OF reachable_engineAt_probed,
        where e = "NetworkTick None dom0" and conn = None and d = dom0
          and evs = "[UpdateCooldown, BufferTick domEmpty]"
          and conn' = "Some conn1" and d' = dom0]
    by blast
qed

text \<open>
  The claim as stated, in milliseconds, fails where the network tick runs every 900
  milliseconds: the tick at 1800 switches to 1080p, \<open>updateCooldown\<close> runs at 2000 and
  at 3000, and the tick at 3600 switches to 240p, 1800 milliseconds after the first switch
  and not 2000.
\<close>

lemma initialize_config900:
  "initialize (constructor config900) domEmpty SourceOpen = Inr engine900"
  by (simp add: initialize_def setupSourceBuffer_def setupSourceBuffer_selected_def
      initialize_attach_def startMonitoring_def Let_def selectInitialQuality_def
      constructor_def config900_def config3_def ladder3_def lvl240_def engineAt_def engine900_def
      sb_of_def domEmpty_def initializeNetworkMetrics_def initializeAdaptiveMetrics_def)

lemma timerTrace900: "timerTrace config900 trace900"
  by (simp add: timerTrace_def timesOf_def trace900_def config900_def)

lemma switchTimes900: "evaluationSwitchTimes engine900 trace900 = [1800, 3600]"
  by (simp add: trace900_def engine900_def engineAt_def constructor_def config900_def config3_def
      ladder3_def lvl240_def lvl720_def lvl1080_def conn10_def conn1_def domEmpty_def
      adaptQuality_def updateNetworkMetrics_begin_def measureThroughput_def
      measureThroughput_try_def calculateNetworkStability_def Let_def
      selectQualityForBitrate_def targetBitrate_of_def switchQuality_def switchQuality_commit_def
      monitorBufferHealth_def updateCooldown_def
      initializeNetworkMetrics_def initializeAdaptiveMetrics_def sb_of_def)

theorem cooldown_counterexample:
  "initialize (constructor config900) domEmpty SourceOpen = Inr engine900
   \<and> timerTrace config900 trace900
   \<and> evaluationSwitchTimes engine900 trace900 = [1800, 3600]
   \<and> (3600 :: real) - 1800 < 2000"
  using initialize_config900 timerTrace900 switchTimes900 by simp

section \<open>The forced downgrade\<close>

text \<open>
  What holds of \<open>handleRebufferingRisk\<close> on a ladder of distinct ids, with the engine
  not buffering and the browser accepting the new source buffer: the current level moves
  one index down, staying at index 0; a switch sets the cooldown to 2000, whatever it was;
  one request for segment 0 is issued during the call. The url of that request is the new
  level's only when the switch did not pass through its \<open>await\<close>.
\<close>

lemma findIndex_lower: "- 1 \<le> findIndex P xs"
  by (induction xs) (auto simp: Let_def)

lemma findIndex_distinct:
  "distinct (map f xs) \<Longrightarrow> i < length xs \<Longrightarrow> findIndex (\<lambda>x. f x = f (xs ! i)) xs = int i"
proof (induction xs arbitrary: i)
  case Nil
  then show ?case by simp
next
  case (Cons x xs)
  show ?case
  proof (cases i)
    case 0
    then show ?thesis by simp
  next
    case (Suc j)
    with Cons.prems have j: "j < length xs" and d: "distinct (map f xs)" by simp_all
    have "f (xs ! j) \<in> f ` set xs" using j by simp
    with Cons.prems(1) have "f x \<noteq> f (xs ! j)" by auto
    with Suc Cons.IH [OF d j] show ?thesis by (simp add: Let_def)
  qed
qed

lemma forced_downgrade_one_level:
  assumes ids: "distinct (map id_lvl (qualities (config s)))"
    and i: "i < length (qualities (config s))"
    and current: "currentQuality_lvl s = Some (qualities (config s) ! i)"
    and idle: "\<not> isBuffering s"
    and attached: "mediaSource s" "sourceBuffer s \<noteq> None" "\<not> addSourceBuffer_throws d"
  shows "currentQuality_lvl (fst (handleRebufferingRisk s d)) = Some (qualities (config s) ! (i - 1))"
    and "0 < i \<Longrightarrow> qualitySwitchCooldown (fst (handleRebufferingRisk s d)) = 2000"
    and "i = 0 \<Longrightarrow> fst (handleRebufferingRisk s d) = s"
    and "snd (handleRebufferingRisk s d)
           = [\<lparr>req_url = url (qualities (config s)
                                 ! (if 0 < i \<and> \<not> switchQuality_awaits s d then i - 1 else i)),
               req_segment = 0\<rparr>]"
proof -
  have idx: "findIndex (\<lambda>q. id_lvl q = id_lvl (qualities (config s) ! i))
               (qualities (config s)) = int i"
    using findIndex_distinct [OF ids i] .
  have risk: "handleRebufferingRisk s d =
          (if 0 < i
           then (switchQuality s d (qualities (config s) ! (i - 1)),
                 preloadContent_begin
                   (if switchQuality_awaits s d then s
                    else switchQuality s d (qualities (config s) ! (i - 1))))
           else (s, preloadContent_begin s))"
    using idle by (simp add: handleRebufferingRisk_def current idx Let_def nat_diff_distrib)
  have switched: "switchQuality s d q = switchQuality_commit s q" for q
    using attached by (auto simp: switchQuality_def)
  show "currentQuality_lvl (fst (handleRebufferingRisk s d)) = Some (qualities (config s) ! (i - 1))"
    unfolding risk by (simp add: switched switchQuality_commit_def current)
  show "0 < i \<Longrightarrow> qualitySwitchCooldown (fst (handleRebufferingRisk s d)) = 2000"
    unfolding risk by (simp add: switched switchQuality_commit_def)
  show "i = 0 \<Longrightarrow> fst (handleRebufferingRisk s d) = s"
    unfolding risk by simp
  show "snd (handleRebufferingRisk s d)
           = [\<lparr>req_url = url (qualities (config s)
                                 ! (if 0 < i \<and> \<not> switchQuality_awaits s d then i - 1 else i)),
               req_segment = 0\<rparr>]"
    unfolding risk
    by (simp add: switched switchQuality_commit_def preloadContent_begin_def current)
qed

text \<open>
  C3, at an input where the code departs from it. The engine is the reachable one that
  plays 1080p, its cooldown still at 2000 from the switch that brought it there; the buffer tick finds the range from 0 to
  10 buffered and the video at second 9, one second ahead under a threshold of two. The
  tick switches to 720p and sets the cooldown, as the claim says; but the position lies in
  the first buffered range, so \<open>switchQuality\<close> is still waiting when
  \<open>preloadContent\<close> runs, and the request issued is for the 1080p stream, not for the
  resulting quality.
\<close>

theorem forced_downgrade_prefetches_previous_quality:
  "reachable engineSwitched
   \<and> currentQuality_lvl engineSwitched = Some lvl1080
   \<and> qualitySwitchCooldown engineSwitched = 2000
   \<and> \<not> isBuffering engineSwitched
   \<and> bufferAhead dom0 < rebufferThreshold (config engineSwitched)
   \<and> currentQuality_lvl (fst (monitorBufferHealth engineSwitched dom0)) = Some lvl720
   \<and> qualitySwitchCooldown (fst (monitorBufferHealth engineSwitched dom0)) = 2000
   \<and> snd (monitorBufferHealth engineSwitched dom0) = [\<lparr>req_url = url lvl1080, req_segment = 0\<rparr>]
   \<and> url lvl1080 \<noteq> url lvl720"
proof -
  have "currentQuality_lvl engineSwitched = Some lvl1080
   \<and> qualitySwitchCooldown engineSwitched = 2000
   \<and> \<not> isBuffering engineSwitched
   \<and> bufferAhead dom0 < rebufferThreshold (config engineSwitched)
   \<and> currentQuality_lvl (fst (monitorBufferHealth engineSwitched dom0)) = Some lvl720
   \<and> qualitySwitchCooldown (fst (monitorBufferHealth engineSwitched dom0)) = 2000
   \<and> snd (monitorBufferHealth engineSwitched dom0) = [\<lparr>req_url = url lvl1080, req_segment = 0\<rparr>]
   \<and> url lvl1080 \<noteq> url lvl720"
    by (simp add: engineSwitched_eq monitorBufferHealth_def handleRebufferingRisk_def Let_def
        bufferAhead_def switchQuality_def switchQuality_commit_def switchQuality_awaits_def
        preloadContent_begin_def engineAt_def constructor_def config3_def ladder3_def
        lvl240_def lvl720_def lvl1080_def dom0_def)
  with reachable_engineSwitched show ?thesis by simp
qed

text \<open>
  At that input the request issued by the tick is not the one for the quality the tick
  leaves the engine at.
\<close>

theorem forced_downgrade_prefetch_witness:
  "map_option url (currentQuality_lvl (fst (monitorBufferHealth engineSwitched dom0)))
     = Some ''/streams/720p/''
   \<and> map req_url (snd (monitorBufferHealth engineSwitched dom0)) = [''/streams/1080p/'']"
  using forced_downgrade_prefetches_previous_quality
  by (simp add: lvl720_def lvl1080_def)

end
